theory Spec2Isabelle
  imports Main "HOL-Library.Word"
begin

section \<open>The secret-management module (job/src/esm.ts)\<close>

text \<open>
  The module talks to a blockchain node, two on-chain registries, the clock and the
  random number generator. None of them is part of the module, so each is an oracle of
  the run's history: the answer to a request is a function of everything the process has
  done so far. The state of a run is that history, and every effect of the source appends
  one event to it. A call that rejects (or yields \<open>null\<close>, which the source dereferences
  at once) is an \<open>Inl\<close> answer. Console output is not modelled.
\<close>

subsection \<open>Data\<close>

type_synonym bytes = "8 word list"

datatype error =
    UnknownKey int                  \<comment> \<open>\<open>new Error(`unknown key: ${keyId}`)\<close>\<close>
  | AttestationTxFailed             \<comment> \<open>\<open>new Error('attestation tx failed')\<close>\<close>
  | CouldNotRetrieveAttestationId   \<comment> \<open>\<open>new Error('could not retrieve attestation id')\<close>\<close>
  | TypeError                       \<comment> \<open>a property read on \<open>undefined\<close>\<close>
  | External string                 \<comment> \<open>a rejection raised outside the module\<close>

record block =
  number :: int
  hash :: string

record registration =
  baseBlockHash :: string
  baseBlockNumber :: int
  expiry :: int
  registrant :: string
  tokenExpiry :: int

record transaction =
  tx_hash :: string

record result_args =
  tcbId :: string

record log_event =
  event :: "string option"
  args :: "result_args option"

record receipt =
  status :: "int option"
  events :: "log_event list option"
  blockNumber :: int

record box =
  keyId :: int
  nonce :: string
  data :: string

datatype block_tag = Latest | Number int

datatype effect =
    Now                                   \<comment> \<open>\<open>Date.now()\<close>\<close>
  | GetBlock block_tag                    \<comment> \<open>\<open>provider.getBlock(tag)\<close>\<close>
  | Attest bytes registration nat         \<comment> \<open>\<open>attok.attest(quote, reg, {gasLimit})\<close>\<close>
  | WaitTx transaction                    \<comment> \<open>\<open>tx.wait()\<close>\<close>
  | GetKey string                         \<comment> \<open>\<open>lockbox.callStatic.getKey(tcbId)\<close>\<close>
  | CreateKey string bytes nat            \<comment> \<open>\<open>lockbox.connect(gasWallet).createKey(tcbId, rnd, {gasLimit})\<close>\<close>
  | RandomBytes nat                       \<comment> \<open>\<open>randomBytes(n)\<close>\<close>
  | Sleep nat                             \<comment> \<open>\<open>setTimeout(resolve, ms)\<close>\<close>

type_synonym trace = "effect list"

definition LATEST_KEY_ID :: int where
  "LATEST_KEY_ID = 1"

text \<open>
  The collaborators. The first group are the services of section 6 of the
  specification; the second group are the library functions the module imports
  (\<open>deoxysii\<close>, \<open>ethers.utils\<close>, \<open>keccak\<close>), taken as parameters. \<open>'c\<close> is the type of
  an AEAD cipher object.
\<close>

record 'c env =
  now_ms :: "trace \<Rightarrow> int"
  getBlock :: "trace \<Rightarrow> block_tag \<Rightarrow> error + block"
  attest :: "trace \<Rightarrow> bytes \<Rightarrow> registration \<Rightarrow> nat \<Rightarrow> error + transaction"
  wait :: "trace \<Rightarrow> transaction \<Rightarrow> error + receipt"
  getKey :: "trace \<Rightarrow> string \<Rightarrow> error + string"
  createKey :: "trace \<Rightarrow> string \<Rightarrow> bytes \<Rightarrow> nat \<Rightarrow> error + transaction"
  randomBytes :: "trace \<Rightarrow> nat \<Rightarrow> bytes"
  KeySize :: nat
  NonceSize :: nat
  AEAD :: "bytes \<Rightarrow> error + 'c"
  aead_encrypt :: "'c \<Rightarrow> bytes \<Rightarrow> bytes \<Rightarrow> error + bytes"
  aead_decrypt :: "'c \<Rightarrow> bytes \<Rightarrow> bytes \<Rightarrow> error + bytes"
  arrayify :: "string \<Rightarrow> error + bytes"
  abi_encode_registration :: "registration \<Rightarrow> bytes"
  abi_encode_bytes32_pair :: "string \<Rightarrow> bytes \<Rightarrow> bytes"
  keccak256 :: "bytes \<Rightarrow> bytes"

subsection \<open>Asynchronous computations\<close>

text \<open>
  An \<open>async\<close> function maps the state before the call to its outcome and the state
  after it; \<open>None\<close> is a promise that never settles. The module-level functions run on
  the history alone; the methods of the class also carry the memo tables.
\<close>

type_synonym ('s, 'a) io = "'s \<Rightarrow> ((error + 'a) \<times> 's) option"

definition ret :: "'a \<Rightarrow> ('s, 'a) io" where
  "ret x s = Some (Inr x, s)"

definition throw :: "error \<Rightarrow> ('s, 'a) io" where
  "throw e s = Some (Inl e, s)"

definition lift :: "error + 'a \<Rightarrow> ('s, 'a) io" where
  "lift r s = Some (r, s)"

definition await :: "('s, 'a) io \<Rightarrow> ('a \<Rightarrow> ('s, 'b) io) \<Rightarrow> ('s, 'b) io" where
  "await m k s =
     (case m s of
        None \<Rightarrow> None
      | Some (Inl e, s') \<Rightarrow> Some (Inl e, s')
      | Some (Inr x, s') \<Rightarrow> k x s')"

definition request :: "effect \<Rightarrow> (trace \<Rightarrow> error + 'a) \<Rightarrow> (trace, 'a) io" where
  "request ev answer tr = Some (answer tr, tr @ [ev])"

subsection \<open>mockQuote\<close>

definition measurementHash :: string where
  "measurementHash = ''0xc275e487107af5257147ce76e1515788118429e0caa17c04d508038da59d5154''"

definition mockQuote :: "'c env \<Rightarrow> registration \<Rightarrow> bytes" where
  "mockQuote env registration =
     (let regBytes = abi_encode_registration env registration
      in abi_encode_bytes32_pair env measurementHash (keccak256 env regBytes))"

subsection \<open>waitForConfirmation\<close>

definition getCurrentBlock :: "'c env \<Rightarrow> (trace, block) io" where
  "getCurrentBlock env = request (GetBlock Latest) (\<lambda>tr. getBlock env tr Latest)"

definition sleep :: "nat \<Rightarrow> (trace, unit) io" where
  "sleep ms = request (Sleep ms) (\<lambda>tr. Inr ())"

text \<open>
  The \<open>while\<close> loop, entered with the block read last. It has no bound, so it is a
  partial function: \<open>None\<close> is the loop that never leaves.
\<close>

partial_function (option) confirmation_loop ::
  "'c env \<Rightarrow> int \<Rightarrow> block \<Rightarrow> trace \<Rightarrow> ((error + unit) \<times> trace) option" where
  "confirmation_loop env ref currentBlock tr =
     (if number currentBlock = ref then
        (case sleep 3000 tr of
           None \<Rightarrow> None
         | Some (Inl e, tr1) \<Rightarrow> Some (Inl e, tr1)
         | Some (Inr _, tr1) \<Rightarrow>
             (case getCurrentBlock env tr1 of
                None \<Rightarrow> None
              | Some (Inl e, tr2) \<Rightarrow> Some (Inl e, tr2)
              | Some (Inr b, tr2) \<Rightarrow> confirmation_loop env ref b tr2))
      else Some (Inr (), tr))"

definition waitForConfirmation :: "'c env \<Rightarrow> receipt \<Rightarrow> (trace, unit) io" where
  "waitForConfirmation env rcpt =
     await (getCurrentBlock env)
       (\<lambda>currentBlock. confirmation_loop env (blockNumber rcpt) currentBlock)"

subsection \<open>sendAttestation\<close>

text \<open>The \<open>for\<close> loop over the receipt's events, with the \<open>tcbId\<close> found so far.\<close>

fun scan_events :: "log_event list \<Rightarrow> string \<Rightarrow> error + string" where
  "scan_events [] tcb = Inr tcb"
| "scan_events (e # es) tcb =
     (if event e \<noteq> Some ''Attested'' then scan_events es tcb
      else (case args e of
              None \<Rightarrow> Inl TypeError
            | Some a \<Rightarrow> scan_events es (tcbId a)))"

definition sendAttestation :: "'c env \<Rightarrow> bytes \<Rightarrow> registration \<Rightarrow> (trace, string) io" where
  "sendAttestation env quote reg =
     await (request (Attest quote reg 10000000) (\<lambda>tr. attest env tr quote reg 10000000)) (\<lambda>tx.
     await (request (WaitTx tx) (\<lambda>tr. wait env tr tx)) (\<lambda>rcpt.
     if status rcpt \<noteq> Some 1 then throw AttestationTxFailed
     else
       await (lift (scan_events (case events rcpt of None \<Rightarrow> [] | Some es \<Rightarrow> es) [])) (\<lambda>tcb.
       if tcb = [] then throw CouldNotRetrieveAttestationId
       else
         await (waitForConfirmation env rcpt) (\<lambda>_.
         ret tcb))))"

subsection \<open>getOrCreateKey\<close>

text \<open>The test \<open>/^(0x)?0+$/.test(key)\<close>.\<close>

definition all_zero :: "string \<Rightarrow> bool" where
  "all_zero key =
     (let digits = (if take 2 key = ''0x'' then drop 2 key else key)
      in digits \<noteq> [] \<and> list_all (\<lambda>c. c = CHR ''0'') digits)"

definition getOrCreateKey :: "'c env \<Rightarrow> string \<Rightarrow> (trace, bytes) io" where
  "getOrCreateKey env tcb =
     await (request (GetKey tcb) (\<lambda>tr. getKey env tr tcb)) (\<lambda>key.
     if \<not> all_zero key then lift (arrayify env key)
     else
       await (request (RandomBytes 32) (\<lambda>tr. Inr (randomBytes env tr 32))) (\<lambda>rnd.
       await (request (CreateKey tcb rnd 10000000) (\<lambda>tr. createKey env tr tcb rnd 10000000)) (\<lambda>tx.
       await (request (WaitTx tx) (\<lambda>tr. wait env tr tx)) (\<lambda>rcpt.
       await (waitForConfirmation env rcpt) (\<lambda>_.
       await (request (GetKey tcb) (\<lambda>tr. getKey env tr tcb)) (\<lambda>key'.
       lift (arrayify env key')))))))"

subsection \<open>The class ESM\<close>

record esm =
  localWallet_address :: string

text \<open>The function wrapped by \<open>fetchKeySapphire\<close>.\<close>

definition fetchKeySapphire_body :: "'c env \<Rightarrow> esm \<Rightarrow> (trace, bytes) io" where
  "fetchKeySapphire_body env this =
     await (request Now (\<lambda>tr. Inr (now_ms env tr))) (\<lambda>now.
     let oneHourFromNow = now div 1000 + 60 * 60 in
     await (request (GetBlock Latest) (\<lambda>tr. getBlock env tr Latest)) (\<lambda>currentBlock.
     await (request (GetBlock (Number (number currentBlock - 1)))
              (\<lambda>tr. getBlock env tr (Number (number currentBlock - 1)))) (\<lambda>prevBlock.
     let registration =
           \<lparr>baseBlockHash = hash prevBlock,
            baseBlockNumber = number prevBlock,
            expiry = oneHourFromNow,
            registrant = localWallet_address this,
            tokenExpiry = oneHourFromNow\<rparr> in
     await (ret (mockQuote env registration)) (\<lambda>quote.
     await (sendAttestation env quote registration) (\<lambda>tcb.
     getOrCreateKey env tcb)))))"

text \<open>The hexadecimal digits, lower case, and their values.\<close>

definition hex_digit :: "nat \<Rightarrow> char" where
  "hex_digit n = ''0123456789abcdef'' ! n"

definition hex_value :: "char \<Rightarrow> nat option" where
  "hex_value c = map_of (zip ''0123456789abcdef'' [0..<16]) c"

text \<open>
  Modelled from the spec: \<open>encode\<close> of \<open>./utils\<close>, which is not among the sources.
  Section 2 of the specification calls \<open>encode\<close> and \<open>decode\<close> the codec that
  "encodes/decodes binary blobs to/from a transport-safe text representation (hex)":
  two hexadecimal digits per byte, the high one first.
\<close>

definition encode :: "bytes \<Rightarrow> string" where
  "encode bs = concat (map (\<lambda>b. [hex_digit (unat b div 16), hex_digit (unat b mod 16)]) bs)"

text \<open>
  Modelled from the spec: \<open>decode\<close> of \<open>./utils\<close>, which is not among the sources;
  the inverse of \<open>encode\<close>. The specification does not say what becomes of a text that
  is not hexadecimal; here it does not decode.
\<close>

fun decode :: "string \<Rightarrow> error + bytes" where
  "decode [] = Inr []"
| "decode [c] = Inl (External ''invalid hex'')"
| "decode (h # l # cs) =
     (case (hex_value h, hex_value l) of
        (Some a, Some b) \<Rightarrow>
          (case decode cs of
             Inl e \<Rightarrow> Inl e
           | Inr bs \<Rightarrow> Inr (word_of_nat (16 * a + b) # bs))
      | _ \<Rightarrow> Inl (External ''invalid hex''))"

text \<open>
  Modelled from the spec: \<open>memoizeAsync\<close> of \<open>./utils\<close>, which is not among the
  sources. Section 4.4 of the specification: the first invocation starts the derivation
  and stores the pending computation, keyed by the call argument; every later invocation
  observes that same computation and starts none. As section 7 says of it, the cache
  does not distinguish a failed computation from a successful one, so the outcome kept
  is an \<open>error + 'a\<close>.

  Run to completion, one call after the other, a stored computation is its outcome:
  \<open>lookup\<close> and \<open>store\<close> read and write the table of the wrapped function in the
  memo state \<open>'m\<close>.
\<close>

definition memoizeAsync ::
  "('k \<Rightarrow> 'm \<Rightarrow> (error + 'a) option) \<Rightarrow> ('k \<Rightarrow> error + 'a \<Rightarrow> 'm \<Rightarrow> 'm) \<Rightarrow>
   ('k \<Rightarrow> ('m \<times> trace, 'a) io) \<Rightarrow> 'k \<Rightarrow> ('m \<times> trace, 'a) io" where
  "memoizeAsync lookup store fn k s =
     (case lookup k (fst s) of
        Some r \<Rightarrow> Some (r, s)
      | None \<Rightarrow>
          (case fn k s of
             None \<Rightarrow> None
           | Some (r, (m', tr')) \<Rightarrow> Some (r, (store k r m', tr'))))"

record 'c memo =
  fetchKey_memo :: "(error + bytes) option"
  getCipher_memo :: "int \<Rightarrow> (error + 'c) option"

definition fresh :: "'c memo" where
  "fresh = \<lparr>fetchKey_memo = None, getCipher_memo = (\<lambda>_. None)\<rparr>"

text \<open>A module-level function, called from a method: the memo tables stay as they are.\<close>

definition on_trace :: "(trace, 'a) io \<Rightarrow> ('m \<times> trace, 'a) io" where
  "on_trace f s =
     (case f (snd s) of
        None \<Rightarrow> None
      | Some (r, tr') \<Rightarrow> Some (r, (fst s, tr')))"

definition fetchKeySapphire :: "'c env \<Rightarrow> esm \<Rightarrow> ('c memo \<times> trace, bytes) io" where
  "fetchKeySapphire env this =
     memoizeAsync (\<lambda>_ m. fetchKey_memo m) (\<lambda>_ r m. m\<lparr>fetchKey_memo := Some r\<rparr>)
       (\<lambda>_. on_trace (fetchKeySapphire_body env this)) ()"

definition getCipher_body :: "'c env \<Rightarrow> esm \<Rightarrow> int \<Rightarrow> ('c memo \<times> trace, 'c) io" where
  "getCipher_body env this kid =
     (if kid = 0 then lift (AEAD env (replicate (KeySize env) 42))
      else if kid = 1 then await (fetchKeySapphire env this) (\<lambda>key. lift (AEAD env key))
      else throw (UnknownKey kid))"

definition getCipher :: "'c env \<Rightarrow> esm \<Rightarrow> int \<Rightarrow> ('c memo \<times> trace, 'c) io" where
  "getCipher env this =
     memoizeAsync (\<lambda>k m. getCipher_memo m k)
       (\<lambda>k r m. m\<lparr>getCipher_memo := (getCipher_memo m)(k \<mapsto> r)\<rparr>)
       (getCipher_body env this)"

definition encrypt :: "'c env \<Rightarrow> esm \<Rightarrow> bytes \<Rightarrow> ('c memo \<times> trace, box) io" where
  "encrypt env this plaintext =
     (let kid = LATEST_KEY_ID in
      await (getCipher env this kid) (\<lambda>cipher.
      await (on_trace (request (RandomBytes (NonceSize env))
                         (\<lambda>tr. Inr (randomBytes env tr (NonceSize env))))) (\<lambda>n.
      await (lift (aead_encrypt env cipher n plaintext)) (\<lambda>ct.
      ret \<lparr>keyId = kid, nonce = encode n, data = encode ct\<rparr>))))"

definition decrypt :: "'c env \<Rightarrow> esm \<Rightarrow> box \<Rightarrow> ('c memo \<times> trace, bytes) io" where
  "decrypt env this b =
     await (getCipher env this (keyId b)) (\<lambda>cipher.
     await (lift (decode (nonce b))) (\<lambda>n.
     await (lift (decode (data b))) (\<lambda>d.
     lift (aead_decrypt env cipher n d))))"

subsection \<open>Concurrent callers\<close>

text \<open>
  Modelled from the spec: \<open>memoizeAsync\<close> of \<open>./utils\<close>, which is not among the
  sources, this time with the promises that concurrent callers share. Sections 4.4 and 5
  of the specification: the first invocation starts the derivation and stores the
  pending computation; every later invocation, concurrent or not, observes and awaits
  that same computation and starts none; execution is single-threaded and cooperative,
  so a call runs undisturbed up to its next suspension.
\<close>

text \<open>A promise is pending or settled with its outcome.\<close>

datatype 'a promise = Pending | Settled "error + 'a"

text \<open>
  The process: its history, the promise stored for \<open>fetchKeySapphire\<close>, the promises
  stored for \<open>getCipher\<close> by key id, the number of times the function wrapped by
  \<open>fetchKeySapphire\<close> has been started, and the outcomes handed to the callers of
  \<open>getCipher\<close> so far, latest first.
\<close>

record 'c process =
  history :: trace
  fetchKey_promise :: "bytes promise option"
  getCipher_promise :: "int \<Rightarrow> 'c promise option"
  derivations :: nat
  delivered :: "(int \<times> (error + 'c)) list"

definition started :: "'c process" where
  "started = \<lparr>history = [], fetchKey_promise = None, getCipher_promise = (\<lambda>k. None),
              derivations = 0, delivered = []\<rparr>"

text \<open>The cipher, or the failure, that follows from the outcome of the derivation.\<close>

definition cipher_of :: "'c env \<Rightarrow> error + bytes \<Rightarrow> error + 'c" where
  "cipher_of env r = (case r of Inl e \<Rightarrow> Inl e | Inr key \<Rightarrow> AEAD env key)"

text \<open>
  Modelled from the spec: a call of a function wrapped by \<open>memoizeAsync\<close> (section
  4.4), up to its first suspension: a stored promise is
  returned as it is; otherwise the wrapped function starts and its promise is stored.
  The function wrapped by \<open>getCipher\<close> settles at once for every id but 1, where it
  calls \<open>fetchKeySapphire\<close> and suspends on the promise of the key.
\<close>

definition call_fetchKeySapphire :: "'c process \<Rightarrow> 'c process" where
  "call_fetchKeySapphire P =
     (case fetchKey_promise P of
        Some pr \<Rightarrow> P
      | None \<Rightarrow> P\<lparr>fetchKey_promise := Some Pending, derivations := Suc (derivations P)\<rparr>)"

definition call_getCipher :: "'c env \<Rightarrow> int \<Rightarrow> 'c process \<Rightarrow> 'c process" where
  "call_getCipher env k P =
     (case getCipher_promise P k of
        Some pr \<Rightarrow> P
      | None \<Rightarrow>
          if k = 0 then
            P\<lparr>getCipher_promise :=
                (getCipher_promise P)(k \<mapsto> Settled (AEAD env (replicate (KeySize env) 42)))\<rparr>
          else if k = 1 then
            (call_fetchKeySapphire P)\<lparr>getCipher_promise := (getCipher_promise P)(k \<mapsto> Pending)\<rparr>
          else
            P\<lparr>getCipher_promise := (getCipher_promise P)(k \<mapsto> Settled (Inl (UnknownKey k)))\<rparr>)"

text \<open>
  The steps of the process. \<open>Call k\<close>: a caller (\<open>encrypt\<close> or \<open>decrypt\<close>) calls
  \<open>getCipher k\<close>. \<open>Derive\<close>: the pending derivation runs and settles the promise of the
  key; no other step has an effect while it is pending, so it runs in one piece.
  \<open>Resume\<close>: the suspended body of \<open>getCipher 1\<close> builds the cipher and settles.
  \<open>Deliver k\<close>: a caller awaiting the promise of \<open>getCipher k\<close> receives its outcome.
  \<open>Nonce\<close>: an \<open>encrypt\<close> that holds the cipher draws its nonce. A step that is not
  enabled yields \<open>None\<close>, as does a derivation that never returns.
\<close>

datatype action = Call int | Derive | Resume | Deliver int | Nonce

fun perform :: "'c env \<Rightarrow> esm \<Rightarrow> action \<Rightarrow> 'c process \<Rightarrow> 'c process option" where
  "perform env this (Call k) P = Some (call_getCipher env k P)"
| "perform env this Derive P =
     (case fetchKey_promise P of
        Some Pending \<Rightarrow>
          (case fetchKeySapphire_body env this (history P) of
             None \<Rightarrow> None
           | Some (r, tr') \<Rightarrow> Some (P\<lparr>history := tr', fetchKey_promise := Some (Settled r)\<rparr>))
      | _ \<Rightarrow> None)"
| "perform env this Resume P =
     (case (getCipher_promise P 1, fetchKey_promise P) of
        (Some Pending, Some (Settled r)) \<Rightarrow>
          Some (P\<lparr>getCipher_promise :=
                    (getCipher_promise P)(1 \<mapsto> Settled (cipher_of env r))\<rparr>)
      | _ \<Rightarrow> None)"
| "perform env this (Deliver k) P =
     (case getCipher_promise P k of
        Some (Settled r) \<Rightarrow> Some (P\<lparr>delivered := (k, r) # delivered P\<rparr>)
      | _ \<Rightarrow> None)"
| "perform env this Nonce P =
     (case getCipher_promise P 1 of
        Some (Settled (Inr c)) \<Rightarrow> Some (P\<lparr>history := history P @ [RandomBytes (NonceSize env)]\<rparr>)
      | _ \<Rightarrow> None)"

text \<open>The steps of concurrent callers, interleaved in the order of the list.\<close>

fun schedule :: "'c env \<Rightarrow> esm \<Rightarrow> action list \<Rightarrow> 'c process \<Rightarrow> 'c process option" where
  "schedule env this [] P = Some P"
| "schedule env this (a # as) P =
     (case perform env this a P of
        None \<Rightarrow> None
      | Some P' \<Rightarrow> schedule env this as P')"

subsection \<open>Observations on a run\<close>

text \<open>
  \<open>polls n\<close> is what \<open>n\<close> rounds of the loop add to the history. \<open>heads_read env tr evs\<close>
  lists the answers to the head reads among the events \<open>evs\<close> that follow the history
  \<open>tr\<close>. \<open>leaves_after env ref b tr n\<close> says that the loop, entered with block \<open>b\<close>
  after history \<open>tr\<close>, leaves after exactly \<open>n\<close> rounds.
\<close>

definition polls :: "nat \<Rightarrow> trace" where
  "polls n = concat (replicate n [Sleep 3000, GetBlock Latest])"

fun heads_read :: "'c env \<Rightarrow> trace \<Rightarrow> trace \<Rightarrow> (error + block) list" where
  "heads_read env tr [] = []"
| "heads_read env tr (ev # evs) =
     (if ev = GetBlock Latest then [getBlock env tr Latest] else []) @
     heads_read env (tr @ [ev]) evs"

fun leaves_after :: "'c env \<Rightarrow> int \<Rightarrow> block \<Rightarrow> trace \<Rightarrow> nat \<Rightarrow> bool" where
  "leaves_after env ref b tr 0 = (number b \<noteq> ref)"
| "leaves_after env ref b tr (Suc n) =
     (number b = ref \<and>
      (case getBlock env (tr @ [Sleep 3000]) Latest of
         Inl e \<Rightarrow> False
       | Inr b' \<Rightarrow> leaves_after env ref b' (tr @ [Sleep 3000, GetBlock Latest]) n))"

definition saw_later_head :: "'c env \<Rightarrow> int \<Rightarrow> trace \<Rightarrow> trace \<Rightarrow> bool" where
  "saw_later_head env ref tr evs =
     list_ex (\<lambda>r. case r of Inl e \<Rightarrow> False | Inr b \<Rightarrow> ref < number b) (heads_read env tr evs)"

text \<open>The receipt's events named Attested, in log order.\<close>

definition attested :: "receipt \<Rightarrow> log_event list" where
  "attested rcpt =
     filter (\<lambda>e. event e = Some ''Attested'') (case events rcpt of None \<Rightarrow> [] | Some es \<Rightarrow> es)"

text \<open>The effects that submit an attestation.\<close>

fun is_Attest :: "effect \<Rightarrow> bool" where
  "is_Attest (Attest q r g) = True"
| "is_Attest ev = False"

text \<open>The registration that the key derivation builds from the clock and the block read.\<close>

definition registration_at :: "'c env \<Rightarrow> esm \<Rightarrow> trace \<Rightarrow> block \<Rightarrow> registration" where
  "registration_at env this tr prevBlock =
     \<lparr>baseBlockHash = hash prevBlock,
      baseBlockNumber = number prevBlock,
      expiry = now_ms env tr div 1000 + 3600,
      registrant = localWallet_address this,
      tokenExpiry = now_ms env tr div 1000 + 3600\<rparr>"

text \<open>What \<open>decrypt\<close> computes from a box once it holds the cipher.\<close>

definition open_box :: "'c env \<Rightarrow> 'c \<Rightarrow> box \<Rightarrow> error + bytes" where
  "open_box env cipher b =
     (case decode (nonce b) of
        Inl e \<Rightarrow> Inl e
      | Inr n \<Rightarrow> (case decode (data b) of
                    Inl e \<Rightarrow> Inl e
                  | Inr d \<Rightarrow> aead_decrypt env cipher n d))"

text \<open>
  \<open>runs env this s s'\<close>: the instance, in state \<open>s\<close>, reaches the state \<open>s'\<close> by
  calls of \<open>encrypt\<close> and \<open>decrypt\<close>, each run to completion. A process starts in
  \<open>(fresh, [])\<close>.
\<close>

inductive runs :: "'c env \<Rightarrow> esm \<Rightarrow> 'c memo \<times> trace \<Rightarrow> 'c memo \<times> trace \<Rightarrow> bool"
  for env :: "'c env" and this :: esm where
  idle: "runs env this s s"
| encrypts: "runs env this s s' \<Longrightarrow> encrypt env this p s' = Some (r, s'') \<Longrightarrow> runs env this s s''"
| decrypts: "runs env this s s' \<Longrightarrow> decrypt env this b s' = Some (r', s'') \<Longrightarrow> runs env this s s''"

text \<open>What the memo table of \<open>getCipher\<close> may hold for the ids other than 1.\<close>

definition memo_ok :: "'c env \<Rightarrow> 'c memo \<Rightarrow> bool" where
  "memo_ok env m \<longleftrightarrow>
     (\<forall>r. getCipher_memo m 0 = Some r \<longrightarrow> r = AEAD env (replicate (KeySize env) 42)) \<and>
     (\<forall>k r. k \<noteq> 0 \<and> k \<noteq> 1 \<and> getCipher_memo m k = Some r \<longrightarrow> r = Inl (UnknownKey k))"

text \<open>What holds of the promises in every state of the process.\<close>

definition proc_ok :: "'c env \<Rightarrow> 'c process \<Rightarrow> bool" where
  "proc_ok env P \<longleftrightarrow>
     derivations P = (if fetchKey_promise P = None then 0 else 1) \<and>
     (getCipher_promise P 1 \<noteq> None \<longrightarrow> fetchKey_promise P \<noteq> None) \<and>
     (\<forall>k r. (k, r) \<in> set (delivered P) \<longrightarrow> getCipher_promise P k = Some (Settled r)) \<and>
     (\<forall>r. getCipher_promise P 1 = Some (Settled r) \<longrightarrow>
        (\<exists>kr. fetchKey_promise P = Some (Settled kr) \<and> r = cipher_of env kr)) \<and>
     length (filter is_Attest (history P)) \<le> 1 \<and>
     ((\<forall>kr. fetchKey_promise P \<noteq> Some (Settled kr)) \<longrightarrow> filter is_Attest (history P) = [])"

text \<open>What a settled promise fixes for the rest of the process.\<close>

definition settles :: "'c process \<Rightarrow> 'c process \<Rightarrow> bool" where
  "settles P P' \<longleftrightarrow>
     (\<forall>k r. getCipher_promise P k = Some (Settled r) \<longrightarrow>
        getCipher_promise P' k = Some (Settled r)) \<and>
     (\<forall>kr. fetchKey_promise P = Some (Settled kr) \<longrightarrow>
        fetchKey_promise P' = Some (Settled kr) \<and> derivations P' = derivations P \<and>
        filter is_Attest (history P') = filter is_Attest (history P))"

text \<open>
  A state of the process in which every promise is settled, and the state of the calls
  run to completion that holds the same outcomes.
\<close>

definition agrees :: "'c process \<Rightarrow> 'c memo \<times> trace \<Rightarrow> bool" where
  "agrees P s \<longleftrightarrow>
     history P = snd s \<and>
     fetchKey_promise P = map_option Settled (fetchKey_memo (fst s)) \<and>
     (\<forall>k. getCipher_promise P k = map_option Settled (getCipher_memo (fst s) k))"

subsection \<open>Simulated collaborators\<close>

text \<open>
  Concrete collaborators to run the module against: a chain whose head is \<open>head\<close> of the
  history, receipts \<open>rcpt\<close>, a lockbox answering \<open>key\<close>, and a toy cipher that
  prefixes the plaintext with nonce and key and checks the prefix on decryption.
\<close>

definition toy_encrypt :: "bytes \<Rightarrow> bytes \<Rightarrow> bytes \<Rightarrow> error + bytes" where
  "toy_encrypt c n p = Inr (n @ c @ p)"

definition toy_decrypt :: "bytes \<Rightarrow> bytes \<Rightarrow> bytes \<Rightarrow> error + bytes" where
  "toy_decrypt c n ct =
     (if take (length n + length c) ct = n @ c then Inr (drop (length n + length c) ct)
      else Inl (External ''authentication failed''))"

definition sim ::
  "(trace \<Rightarrow> int) \<Rightarrow> (trace \<Rightarrow> receipt) \<Rightarrow> (trace \<Rightarrow> string \<Rightarrow> string) \<Rightarrow> bytes env" where
  "sim head rcpt key =
     \<lparr>now_ms = (\<lambda>tr. 1700000000999),
      getBlock = (\<lambda>tr tag. case tag of
                    Latest \<Rightarrow> Inr \<lparr>number = head tr, hash = ''0xaa''\<rparr>
                  | Number n \<Rightarrow> Inr \<lparr>number = n, hash = ''0xbb''\<rparr>),
      attest = (\<lambda>tr q r g. Inr \<lparr>tx_hash = ''0x01''\<rparr>),
      wait = (\<lambda>tr tx. Inr (rcpt tr)),
      getKey = (\<lambda>tr tcb. Inr (key tr tcb)),
      createKey = (\<lambda>tr tcb rnd g. Inr \<lparr>tx_hash = ''0x02''\<rparr>),
      randomBytes = (\<lambda>tr n. replicate n 7),
      KeySize = 32,
      NonceSize = 15,
      AEAD = Inr,
      aead_encrypt = toy_encrypt,
      aead_decrypt = toy_decrypt,
      arrayify = (\<lambda>s. decode (drop 2 s)),
      abi_encode_registration = (\<lambda>r. []),
      abi_encode_bytes32_pair = (\<lambda>h b. b),
      keccak256 = (\<lambda>b. b)\<rparr>"

text \<open>A chain that grows by one block during every poll interval.\<close>

definition advancing :: "trace \<Rightarrow> int" where
  "advancing tr = 100 + int (length (filter (\<lambda>ev. ev = Sleep 3000) tr))"

text \<open>A receipt in the head block, with the given status and one Attested event per id.\<close>

definition included :: "int option \<Rightarrow> string list \<Rightarrow> trace \<Rightarrow> receipt" where
  "included st tcbs tr =
     \<lparr>status = st,
      events = Some (map (\<lambda>t. \<lparr>event = Some ''Attested'', args = Some \<lparr>tcbId = t\<rparr>\<rparr>) tcbs),
      blockNumber = advancing tr\<rparr>"

text \<open>
  A lockbox that answers the zero word for an id until a create-key transaction for that
  id has been sent, and a fixed key from then on.
\<close>

fun created :: "string \<Rightarrow> effect \<Rightarrow> bool" where
  "created tcb (CreateKey t rnd g) = (t = tcb)"
| "created tcb ev = False"

definition zero32 :: string where
  "zero32 = ''0x0000000000000000000000000000000000000000000000000000000000000000''"

definition key32 :: string where
  "key32 = ''0x2a2b2a2b2a2b2a2b2a2b2a2b2a2b2a2b2a2b2a2b2a2b2a2b2a2b2a2b2a2b2a2b''"

definition lockbox_sim :: "trace \<Rightarrow> string \<Rightarrow> string" where
  "lockbox_sim tr tcb = (if list_ex (created tcb) tr then key32 else zero32)"

text \<open>
  \<open>tx.wait()\<close> as ethers v5, the library the module is written against, settles it
  for a transaction mined with the receipt \<open>mined\<close>: the library rejects with
  "transaction failed" when the status of the receipt is 0 and resolves to the receipt
  otherwise. \<open>sim_ethers\<close> are the simulated collaborators with that \<open>wait\<close>, where
  \<open>mined tx\<close> is the receipt of the transaction \<open>tx\<close>; with \<open>create_fails\<close> the attest
  transaction succeeds and the create-key transaction (hash 0x02) fails.
\<close>

definition wait_outcome :: "receipt \<Rightarrow> error + receipt" where
  "wait_outcome mined =
     (if status mined = Some 0 then Inl (External ''transaction failed'') else Inr mined)"

definition sim_ethers :: "(transaction \<Rightarrow> trace \<Rightarrow> receipt) \<Rightarrow> bytes env" where
  "sim_ethers mined =
     (sim advancing (mined \<lparr>tx_hash = ''0x01''\<rparr>) lockbox_sim)
       \<lparr>wait := (\<lambda>tr tx. wait_outcome (mined tx tr))\<rparr>"

definition create_fails :: "transaction \<Rightarrow> trace \<Rightarrow> receipt" where
  "create_fails tx = included (if tx_hash tx = ''0x02'' then Some 0 else Some 1) [''0x07'']"

text \<open>A registration to submit in the runs.\<close>

definition reg0 :: registration where
  "reg0 = \<lparr>baseBlockHash = ''0xbb'', baseBlockNumber = 99, expiry = 1700003600,
            registrant = ''0x10ca1'', tokenExpiry = 1700003600\<rparr>"

text \<open>
  A box under the test key, and the state of the process after its first \<open>encrypt\<close>
  against the simulated collaborators.
\<close>

definition box0 :: box where
  "box0 = \<lparr>keyId = 0, nonce = ''07'',
            data = ''072a2a2a2a2a2a2a2a2a2a2a2a2a2a2a2a2a2a2a2a2a2a2a2a2a2a2a2a2a2a2a2a0102''\<rparr>"

definition trace1 :: trace where
  "trace1 =
     [Now, GetBlock Latest, GetBlock (Number 99),
      Attest [] reg0 10000000,
      WaitTx \<lparr>tx_hash = ''0x01''\<rparr>, GetBlock Latest, Sleep 3000, GetBlock Latest,
      GetKey ''0x07'', RandomBytes 32, CreateKey ''0x07'' (replicate 32 7) 10000000,
      WaitTx \<lparr>tx_hash = ''0x02''\<rparr>, GetBlock Latest, Sleep 3000, GetBlock Latest,
      GetKey ''0x07'']"

definition memo1 :: "bytes memo" where
  "memo1 = \<lparr>fetchKey_memo = Some (Inr (concat (replicate 16 [42, 43]))),
             getCipher_memo = (\<lambda>k. None)(1 \<mapsto> Inr (concat (replicate 16 [42, 43])))\<rparr>"

text \<open>The process after three callers of \<open>encrypt\<close>, two of them concurrent.\<close>

definition process1 :: "bytes process" where
  "process1 =
     \<lparr>history = trace1 @ [RandomBytes 15],
      fetchKey_promise = Some (Settled (Inr (concat (replicate 16 [42, 43])))),
      getCipher_promise = (\<lambda>k. None)(1 \<mapsto> Settled (Inr (concat (replicate 16 [42, 43])))),
      derivations = 1,
      delivered = [(1, Inr (concat (replicate 16 [42, 43]))),
                   (1, Inr (concat (replicate 16 [42, 43]))),
                   (1, Inr (concat (replicate 16 [42, 43])))]\<rparr>"

section \<open>Properties\<close>

subsection \<open>Running asynchronous computations\<close>

lemma await_request:
  "await (request ev answer) k tr =
     (case answer tr of Inl e \<Rightarrow> Some (Inl e, tr @ [ev]) | Inr x \<Rightarrow> k x (tr @ [ev]))"
  by (simp add: await_def request_def split: sum.splits)

lemma await_lift:
  "await (lift r) k s = (case r of Inl e \<Rightarrow> Some (Inl e, s) | Inr x \<Rightarrow> k x s)"
  by (simp add: await_def lift_def split: sum.splits)

lemma await_ret: "await (ret x) k s = k x s"
  by (simp add: await_def ret_def)

lemma getCurrentBlock_eq:
  "getCurrentBlock env tr = Some (getBlock env tr Latest, tr @ [GetBlock Latest])"
  by (simp add: getCurrentBlock_def request_def)

subsection \<open>The codec\<close>

lemma hex_digits_all: "list_all (\<lambda>n. hex_value (hex_digit n) = Some n) [0..<16]"
  by code_simp

lemma hex_value_digit: "n < 16 \<Longrightarrow> hex_value (hex_digit n) = Some n"
  using hex_digits_all by (simp add: list_all_iff)

lemma byte_nibbles:
  fixes b :: "8 word"
  shows "unat b div 16 < 16" and "word_of_nat (16 * (unat b div 16) + unat b mod 16) = b"
proof -
  have "unat b < 256" using unsigned_less[of b] by simp
  then show "unat b div 16 < 16" by simp
  show "word_of_nat (16 * (unat b div 16) + unat b mod 16) = b" by simp
qed

lemma decode_encode: "decode (encode bs) = Inr bs"
proof (induction bs)
  case Nil
  then show ?case by (simp add: encode_def)
next
  case (Cons b bs)
  have "encode (b # bs) = hex_digit (unat b div 16) # hex_digit (unat b mod 16) # encode bs"
    by (simp add: encode_def)
  with Cons show ?case
    by (simp add: hex_value_digit byte_nibbles)
qed

subsection \<open>The simulated collaborators\<close>

lemma sim_simps:
  "getBlock (sim head rcpt key) tr Latest = Inr \<lparr>number = head tr, hash = ''0xaa''\<rparr>"
  "getBlock (sim head rcpt key) tr (Number n) = Inr \<lparr>number = n, hash = ''0xbb''\<rparr>"
  "wait (sim head rcpt key) tr tx = Inr (rcpt tr)"
  "getKey (sim head rcpt key) tr tcb = Inr (key tr tcb)"
  by (simp_all add: sim_def)

lemma sim_fields:
  "now_ms (sim head rcpt key) tr = 1700000000999"
  "attest (sim head rcpt key) tr q r g = Inr \<lparr>tx_hash = ''0x01''\<rparr>"
  "createKey (sim head rcpt key) tr tcb rnd g = Inr \<lparr>tx_hash = ''0x02''\<rparr>"
  "randomBytes (sim head rcpt key) tr n = replicate n 7"
  "arrayify (sim head rcpt key) s = decode (drop 2 s)"
  "mockQuote (sim head rcpt key) reg = []"
  by (simp_all add: sim_def mockQuote_def)

lemma sim_aead:
  "KeySize (sim head rcpt key) = 32" "NonceSize (sim head rcpt key) = 15"
  "AEAD (sim head rcpt key) k = Inr k"
  "aead_encrypt (sim head rcpt key) = toy_encrypt"
  "aead_decrypt (sim head rcpt key) = toy_decrypt"
  by (simp_all add: sim_def)

lemma toy_round_trip: "toy_encrypt c n p = Inr ct \<Longrightarrow> toy_decrypt c n ct = Inr p"
  by (auto simp: toy_encrypt_def toy_decrypt_def)

lemma advancing_append:
  "advancing (tr @ evs) = advancing tr + int (length (filter (\<lambda>ev. ev = Sleep 3000) evs))"
  by (simp add: advancing_def)

lemma decode_zero32: "decode (drop 2 zero32) = Inr (replicate 32 0)"
  by code_simp

lemma decode_key32: "decode (drop 2 key32) = Inr (concat (replicate 16 [42, 43]))"
  by code_simp

lemma all_zero_zero32: "all_zero zero32"
  by code_simp

lemma not_all_zero_key32: "\<not> all_zero key32"
  by code_simp

lemma open_box0: "open_box (sim head rcpt key) (replicate 32 42) box0 = Inr [1, 2]"
  unfolding open_box_def sim_aead by code_simp

subsection \<open>The confirmation waiter\<close>

text \<open>One round of the loop, with the two requests run.\<close>

lemma confirmation_loop_unfold:
  "confirmation_loop env ref b tr =
     (if number b = ref then
        (case getBlock env (tr @ [Sleep 3000]) Latest of
           Inl e \<Rightarrow> Some (Inl e, tr @ [Sleep 3000, GetBlock Latest])
         | Inr b' \<Rightarrow> confirmation_loop env ref b' (tr @ [Sleep 3000, GetBlock Latest]))
      else Some (Inr (), tr))"
  by (subst confirmation_loop.simps)
     (simp add: sleep_def request_def getCurrentBlock_eq split: sum.splits)

lemma polls_Suc: "polls (Suc n) = [Sleep 3000, GetBlock Latest] @ polls n"
  by (simp add: polls_def)

text \<open>If the head differs after \<open>n\<close> rounds, the loop returns then.\<close>

lemma loop_leaves:
  "leaves_after env ref b tr n \<Longrightarrow> confirmation_loop env ref b tr = Some (Inr (), tr @ polls n)"
proof (induction n arbitrary: b tr)
  case 0
  then show ?case by (subst confirmation_loop_unfold) (simp add: polls_def)
next
  case (Suc n)
  then obtain b' where b': "getBlock env (tr @ [Sleep 3000]) Latest = Inr b'"
    and rest: "leaves_after env ref b' (tr @ [Sleep 3000, GetBlock Latest]) n"
    and eq: "number b = ref"
    by (auto split: sum.splits)
  from Suc.IH[OF rest] eq b' show ?case
    by (subst confirmation_loop_unfold) (simp add: polls_Suc)
qed

text \<open>Conversely, a loop that returned has left after some number of rounds.\<close>

lemma loop_left:
  assumes "confirmation_loop env ref b tr = Some y"
  shows "\<forall>tr'. y = (Inr (), tr') \<longrightarrow> (\<exists>n. leaves_after env ref b tr n \<and> tr' = tr @ polls n)"
proof (rule confirmation_loop.raw_induct[OF _ assms])
  fix loop :: "'a env \<Rightarrow> int \<Rightarrow> block \<Rightarrow> trace \<Rightarrow> ((error + unit) \<times> trace) option"
  fix env :: "'a env" and ref :: int and b :: block and tr :: trace
    and y :: "(error + unit) \<times> trace"
  assume IH: "\<And>env ref b tr y. loop env ref b tr = Some y \<Longrightarrow>
     \<forall>tr'. y = (Inr (), tr') \<longrightarrow> (\<exists>n. leaves_after env ref b tr n \<and> tr' = tr @ polls n)"
  assume body: "(if number b = ref then
        (case sleep 3000 tr of
           None \<Rightarrow> None
         | Some (Inl e, tr1) \<Rightarrow> Some (Inl e, tr1)
         | Some (Inr _, tr1) \<Rightarrow>
             (case getCurrentBlock env tr1 of
                None \<Rightarrow> None
              | Some (Inl e, tr2) \<Rightarrow> Some (Inl e, tr2)
              | Some (Inr b, tr2) \<Rightarrow> loop env ref b tr2))
      else Some (Inr (), tr)) = Some y"
  show "\<forall>tr'. y = (Inr (), tr') \<longrightarrow> (\<exists>n. leaves_after env ref b tr n \<and> tr' = tr @ polls n)"
  proof (intro allI impI)
    fix tr'
    assume y: "y = (Inr (), tr')"
    show "\<exists>n. leaves_after env ref b tr n \<and> tr' = tr @ polls n"
    proof (cases "number b = ref")
      case False
      with body y have "tr' = tr" by auto
      with False have "leaves_after env ref b tr 0 \<and> tr' = tr @ polls 0"
        by (simp add: polls_def)
      then show ?thesis by blast
    next
      case True
      with body y obtain b' where b': "getBlock env (tr @ [Sleep 3000]) Latest = Inr b'"
        and call: "loop env ref b' (tr @ [Sleep 3000, GetBlock Latest]) = Some (Inr (), tr')"
        by (auto simp: sleep_def request_def getCurrentBlock_eq split: sum.splits)
      from IH[OF call] obtain n where
        n: "leaves_after env ref b' (tr @ [Sleep 3000, GetBlock Latest]) n"
           "tr' = (tr @ [Sleep 3000, GetBlock Latest]) @ polls n"
        by blast
      with True b' have "leaves_after env ref b tr (Suc n) \<and> tr' = tr @ polls (Suc n)"
        by (simp add: polls_Suc)
      then show ?thesis by blast
    qed
  qed
qed

text \<open>The heads read by a loop that leaves: all equal to the reference but the last.\<close>

lemma leaves_heads:
  "leaves_after env ref b tr n \<Longrightarrow>
     \<exists>hs. length hs = n \<and> heads_read env tr (polls n) = map Inr hs \<and>
          (\<forall>c\<in>set (butlast (b # hs)). number c = ref) \<and> number (last (b # hs)) \<noteq> ref"
proof (induction n arbitrary: b tr)
  case 0
  then show ?case by (simp add: polls_def)
next
  case (Suc n)
  then obtain b' where b': "getBlock env (tr @ [Sleep 3000]) Latest = Inr b'"
    and rest: "leaves_after env ref b' (tr @ [Sleep 3000, GetBlock Latest]) n"
    and eq: "number b = ref"
    by (auto split: sum.splits)
  from Suc.IH[OF rest] obtain hs where hs: "length hs = n"
    "heads_read env (tr @ [Sleep 3000, GetBlock Latest]) (polls n) = map Inr hs"
    "\<forall>c\<in>set (butlast (b' # hs)). number c = ref" "number (last (b' # hs)) \<noteq> ref"
    by blast
  have "length (b' # hs) = Suc n \<and> heads_read env tr (polls (Suc n)) = map Inr (b' # hs) \<and>
          (\<forall>c\<in>set (butlast (b # b' # hs)). number c = ref) \<and> number (last (b # b' # hs)) \<noteq> ref"
    using hs b' eq by (simp add: polls_Suc)
  then show ?case by blast
qed

lemma loop_trace:
  assumes "confirmation_loop env ref b tr = Some y"
  shows "\<exists>n. snd y = tr @ polls n"
proof (rule confirmation_loop.raw_induct[OF _ assms])
  fix loop :: "'a env \<Rightarrow> int \<Rightarrow> block \<Rightarrow> trace \<Rightarrow> ((error + unit) \<times> trace) option"
  fix env :: "'a env" and ref :: int and b :: block and tr :: trace
    and y :: "(error + unit) \<times> trace"
  assume IH: "\<And>env ref b tr y. loop env ref b tr = Some y \<Longrightarrow> \<exists>n. snd y = tr @ polls n"
  assume body: "(if number b = ref then
        (case sleep 3000 tr of
           None \<Rightarrow> None
         | Some (Inl e, tr1) \<Rightarrow> Some (Inl e, tr1)
         | Some (Inr _, tr1) \<Rightarrow>
             (case getCurrentBlock env tr1 of
                None \<Rightarrow> None
              | Some (Inl e, tr2) \<Rightarrow> Some (Inl e, tr2)
              | Some (Inr b, tr2) \<Rightarrow> loop env ref b tr2))
      else Some (Inr (), tr)) = Some y"
  show "\<exists>n. snd y = tr @ polls n"
  proof (cases "number b = ref")
    case False
    with body have "snd y = tr @ polls 0" by (auto simp: polls_def)
    then show ?thesis by blast
  next
    case True
    show ?thesis
    proof (cases "getBlock env (tr @ [Sleep 3000]) Latest")
      case (Inl e)
      with True body have "snd y = tr @ polls (Suc 0)"
        by (auto simp: sleep_def request_def getCurrentBlock_eq polls_def)
      then show ?thesis by blast
    next
      case (Inr b')
      with True body have "loop env ref b' (tr @ [Sleep 3000, GetBlock Latest]) = Some y"
        by (auto simp: sleep_def request_def getCurrentBlock_eq)
      from IH[OF this] obtain n where "snd y = (tr @ [Sleep 3000, GetBlock Latest]) @ polls n"
        by blast
      then have "snd y = tr @ polls (Suc n)" by (simp add: polls_Suc)
      then show ?thesis by blast
    qed
  qed
qed

lemma polls_no_Attest: "\<not> list_ex is_Attest (polls n)"
  by (induction n) (simp_all add: polls_def)

lemma wait_two_reads:
  assumes "getBlock env tr Latest = Inr b0" "number b0 = blockNumber rcpt"
    "getBlock env (tr @ [GetBlock Latest, Sleep 3000]) Latest = Inr b1"
    "number b1 \<noteq> blockNumber rcpt"
  shows "waitForConfirmation env rcpt tr =
           Some (Inr (), tr @ [GetBlock Latest, Sleep 3000, GetBlock Latest])"
proof -
  from assms have "leaves_after env (blockNumber rcpt) b0 (tr @ [GetBlock Latest]) (Suc 0)"
    by simp
  from loop_leaves[OF this] assms(1) show ?thesis
    by (simp add: waitForConfirmation_def await_def getCurrentBlock_eq polls_def)
qed

lemma wait_trace:
  assumes "waitForConfirmation env rcpt tr = Some (r, tr')"
  shows "\<exists>evs. tr' = tr @ evs \<and> \<not> list_ex is_Attest evs"
proof (cases "getBlock env tr Latest")
  case (Inl e)
  with assms have "tr' = tr @ [GetBlock Latest]"
    by (auto simp: waitForConfirmation_def await_def getCurrentBlock_eq)
  then show ?thesis by simp
next
  case (Inr b)
  with assms have "confirmation_loop env (blockNumber rcpt) b (tr @ [GetBlock Latest]) = Some (r, tr')"
    by (auto simp: waitForConfirmation_def await_def getCurrentBlock_eq)
  from loop_trace[OF this] obtain n where "tr' = tr @ GetBlock Latest # polls n"
    by auto
  then show ?thesis using polls_no_Attest[of n] by simp
qed

lemma sim_wait:
  "blockNumber rcpt = advancing tr \<Longrightarrow>
   waitForConfirmation (sim advancing r k) rcpt tr =
     Some (Inr (), tr @ [GetBlock Latest, Sleep 3000, GetBlock Latest])"
  by (rule wait_two_reads[where ?b0.0 = "\<lparr>number = advancing tr, hash = ''0xaa''\<rparr>"
        and ?b1.0 = "\<lparr>number = advancing tr + 1, hash = ''0xaa''\<rparr>"])
     (simp_all add: sim_simps advancing_append)

text \<open>
  Claim C3, as the specification states it: the waiter returns only once a head with a
  number strictly greater than the receipt's block number has been observed. It fails
  where the node answers with an older head: against a receipt in block 5 and a head
  numbered 4, the waiter returns after its first read, having seen no later block.
\<close>

theorem waitForConfirmation_returns_on_older_head:
  "waitForConfirmation (sim (\<lambda>tr. 4) (included (Some 1) []) (\<lambda>tr tcb. ''0x00''))
     \<lparr>status = Some 1, events = None, blockNumber = 5\<rparr> []
   = Some (Inr (), [GetBlock Latest]) \<and>
   \<not> saw_later_head (sim (\<lambda>tr. 4) (included (Some 1) []) (\<lambda>tr tcb. ''0x00'')) 5 []
       [GetBlock Latest]"
  by (simp add: waitForConfirmation_def await_def getCurrentBlock_eq sim_simps
       confirmation_loop_unfold saw_later_head_def)

text \<open>
  Claim C3, amended: the waiter returns only once a head whose number differs from the
  receipt's block number has been read. When it returns, every head read but the last
  had the receipt's block number, the last one has another number, and the reads are
  separated by one sleep of 3000 ms each. In a run where the first head read has the
  receipt's block number and the second has not, it returns after exactly two head reads
  with one sleep of 3000 ms in between.
\<close>

theorem waitForConfirmation_returns_on_differing_head:
  "(waitForConfirmation env rcpt tr = Some (Inr (), tr') \<longrightarrow>
      (\<exists>hs h. tr' = tr @ GetBlock Latest # polls (length hs) \<and>
         heads_read env tr (GetBlock Latest # polls (length hs)) = map Inr (hs @ [h]) \<and>
         (\<forall>b\<in>set hs. number b = blockNumber rcpt) \<and> number h \<noteq> blockNumber rcpt)) \<and>
   (\<forall>b0 b1. getBlock env tr Latest = Inr b0 \<and> number b0 = blockNumber rcpt \<and>
       getBlock env (tr @ [GetBlock Latest, Sleep 3000]) Latest = Inr b1 \<and>
       number b1 \<noteq> blockNumber rcpt \<longrightarrow>
       waitForConfirmation env rcpt tr =
         Some (Inr (), tr @ [GetBlock Latest, Sleep 3000, GetBlock Latest]))"
proof (intro conjI impI allI)
  assume ret: "waitForConfirmation env rcpt tr = Some (Inr (), tr')"
  then obtain b where b: "getBlock env tr Latest = Inr b"
    and loop: "confirmation_loop env (blockNumber rcpt) b (tr @ [GetBlock Latest]) = Some (Inr (), tr')"
    by (auto simp: waitForConfirmation_def await_def getCurrentBlock_eq split: sum.splits)
  from loop_left[OF loop] obtain n where
    n: "leaves_after env (blockNumber rcpt) b (tr @ [GetBlock Latest]) n"
       "tr' = (tr @ [GetBlock Latest]) @ polls n"
    by blast
  from leaves_heads[OF n(1)] obtain hs where hs: "length hs = n"
    "heads_read env (tr @ [GetBlock Latest]) (polls n) = map Inr hs"
    "\<forall>c\<in>set (butlast (b # hs)). number c = blockNumber rcpt"
    "number (last (b # hs)) \<noteq> blockNumber rcpt"
    by blast
  let ?hs = "butlast (b # hs)" and ?h = "last (b # hs)"
  have len: "length ?hs = n" using hs(1) by (cases hs) auto
  have "heads_read env tr (GetBlock Latest # polls n) = map Inr (b # hs)"
    using b hs(2) by simp
  also have "b # hs = ?hs @ [?h]"
    by (rule append_butlast_last_id[symmetric]) simp
  finally have "heads_read env tr (GetBlock Latest # polls (length ?hs)) = map Inr (?hs @ [?h])"
    using len by simp
  moreover have "tr' = tr @ GetBlock Latest # polls (length ?hs)"
    using n(2) len by simp
  ultimately show "\<exists>hs h. tr' = tr @ GetBlock Latest # polls (length hs) \<and>
         heads_read env tr (GetBlock Latest # polls (length hs)) = map Inr (hs @ [h]) \<and>
         (\<forall>b\<in>set hs. number b = blockNumber rcpt) \<and> number h \<noteq> blockNumber rcpt"
    using hs(3,4) by blast
next
  fix b0 b1
  assume h: "getBlock env tr Latest = Inr b0 \<and> number b0 = blockNumber rcpt \<and>
       getBlock env (tr @ [GetBlock Latest, Sleep 3000]) Latest = Inr b1 \<and>
       number b1 \<noteq> blockNumber rcpt"
  then have "leaves_after env (blockNumber rcpt) b0 (tr @ [GetBlock Latest]) (Suc 0)"
    by simp
  from loop_leaves[OF this] h
  show "waitForConfirmation env rcpt tr =
         Some (Inr (), tr @ [GetBlock Latest, Sleep 3000, GetBlock Latest])"
    by (simp add: waitForConfirmation_def await_def getCurrentBlock_eq polls_def)
qed

text \<open>
  Witness for C3: on the chain that grows by one block per poll interval, with the
  receipt in the head block 100, the first read sees block 100, the second block 101,
  and the waiter returns after two reads and one sleep.
\<close>

theorem waitForConfirmation_returns_on_differing_head_witness:
  "getBlock (sim advancing (included (Some 1) []) (\<lambda>tr tcb. ''0x00'')) [] Latest
     = Inr \<lparr>number = 100, hash = ''0xaa''\<rparr> \<and>
   getBlock (sim advancing (included (Some 1) []) (\<lambda>tr tcb. ''0x00''))
       [GetBlock Latest, Sleep 3000] Latest
     = Inr \<lparr>number = 101, hash = ''0xaa''\<rparr> \<and>
   waitForConfirmation (sim advancing (included (Some 1) []) (\<lambda>tr tcb. ''0x00''))
     \<lparr>status = Some 1, events = None, blockNumber = 100\<rparr> []
   = Some (Inr (), [GetBlock Latest, Sleep 3000, GetBlock Latest])"
  using waitForConfirmation_returns_on_differing_head
    [of "sim advancing (included (Some 1) []) (\<lambda>tr tcb. ''0x00'')"
      "\<lparr>status = Some 1, events = None, blockNumber = 100\<rparr>" "[]" "[]"]
  by (simp add: sim_simps advancing_def)

subsection \<open>The attestation client\<close>

lemma scan_events_Inr:
  "scan_events es t0 = Inr tcb \<Longrightarrow>
     (if filter (\<lambda>e. event e = Some ''Attested'') es = [] then tcb = t0
      else map_option tcbId (args (last (filter (\<lambda>e. event e = Some ''Attested'') es))) = Some tcb)"
proof (induction es arbitrary: t0)
  case Nil
  then show ?case by simp
next
  case (Cons e es)
  show ?case
  proof (cases "event e = Some ''Attested''")
    case False
    with Cons show ?thesis by simp
  next
    case True
    with Cons.prems obtain a where a: "args e = Some a"
      and rest: "scan_events es (tcbId a) = Inr tcb"
      by (auto split: option.splits)
    from Cons.IH[OF rest] True a show ?thesis
      by (auto split: if_splits)
  qed
qed

lemma scan_events_decoded:
  "\<forall>e\<in>set (filter (\<lambda>e. event e = Some ''Attested'') es). args e \<noteq> None \<Longrightarrow>
     \<exists>tcb. scan_events es t0 = Inr tcb"
  by (induction es arbitrary: t0) auto

lemma sendAttestation_unfold:
  assumes "attest env tr quote reg 10000000 = Inr tx"
      and "wait env (tr @ [Attest quote reg 10000000]) tx = Inr rcpt"
  shows "sendAttestation env quote reg tr =
     (if status rcpt \<noteq> Some 1
      then Some (Inl AttestationTxFailed, tr @ [Attest quote reg 10000000, WaitTx tx])
      else (case scan_events (case events rcpt of None \<Rightarrow> [] | Some es \<Rightarrow> es) [] of
              Inl e \<Rightarrow> Some (Inl e, tr @ [Attest quote reg 10000000, WaitTx tx])
            | Inr tcb \<Rightarrow>
                if tcb = [] then Some (Inl CouldNotRetrieveAttestationId,
                                       tr @ [Attest quote reg 10000000, WaitTx tx])
                else await (waitForConfirmation env rcpt) (\<lambda>_. ret tcb)
                       (tr @ [Attest quote reg 10000000, WaitTx tx])))"
  using assms
  by (simp add: sendAttestation_def await_request await_lift throw_def split: sum.splits)

lemma sendAttestation_trace:
  assumes "sendAttestation env q reg tr = Some (r, tr')"
  shows "\<exists>evs. tr' = tr @ Attest q reg 10000000 # evs \<and> \<not> list_ex is_Attest evs"
proof (cases "attest env tr q reg 10000000")
  case (Inl e)
  with assms show ?thesis
    by (auto simp: sendAttestation_def await_request)
next
  case tx: (Inr tx)
  show ?thesis
  proof (cases "wait env (tr @ [Attest q reg 10000000]) tx")
    case (Inl e)
    with assms tx show ?thesis
      by (auto simp: sendAttestation_def await_request)
  next
    case (Inr rcpt)
    show ?thesis
    proof (cases "waitForConfirmation env rcpt (tr @ [Attest q reg 10000000, WaitTx tx])")
      case None
      with assms show ?thesis
        by (auto simp: sendAttestation_unfold[OF tx Inr] await_def split: if_splits sum.splits)
    next
      case (Some p)
      obtain r1 tr1 where p: "p = (r1, tr1)" by (cases p)
      from wait_trace[OF Some[unfolded p]] obtain evs where
        evs: "tr1 = (tr @ [Attest q reg 10000000, WaitTx tx]) @ evs" "\<not> list_ex is_Attest evs"
        by blast
      from assms have "tr' = tr @ [Attest q reg 10000000, WaitTx tx] \<or> tr' = tr1"
        by (auto simp: sendAttestation_unfold[OF tx Inr] await_def ret_def Some p
                 split: if_splits sum.splits)
      then show ?thesis
      proof
        assume "tr' = tr @ [Attest q reg 10000000, WaitTx tx]"
        then show ?thesis by simp
      next
        assume "tr' = tr1"
        with evs have "tr' = tr @ Attest q reg 10000000 # (WaitTx tx # evs) \<and>
          \<not> list_ex is_Attest (WaitTx tx # evs)" by simp
        then show ?thesis by blast
      qed
    qed
  qed
qed

lemma sim_attest_run:
  "sendAttestation (sim advancing (included (Some 1) [''0x07'']) key) q reg tr =
     Some (Inr ''0x07'', tr @ [Attest q reg 10000000, WaitTx \<lparr>tx_hash = ''0x01''\<rparr>,
                              GetBlock Latest, Sleep 3000, GetBlock Latest])"
proof -
  let ?env = "sim advancing (included (Some 1) [''0x07'']) key"
  let ?rcpt = "included (Some 1) [''0x07''] (tr @ [Attest q reg 10000000])"
  have a: "attest ?env tr q reg 10000000 = Inr \<lparr>tx_hash = ''0x01''\<rparr>"
    by (simp add: sim_fields)
  have w: "wait ?env (tr @ [Attest q reg 10000000]) \<lparr>tx_hash = ''0x01''\<rparr> = Inr ?rcpt"
    by (simp add: sim_simps)
  have c: "waitForConfirmation ?env ?rcpt (tr @ [Attest q reg 10000000, WaitTx \<lparr>tx_hash = ''0x01''\<rparr>])
      = Some (Inr (), (tr @ [Attest q reg 10000000, WaitTx \<lparr>tx_hash = ''0x01''\<rparr>]) @
                      [GetBlock Latest, Sleep 3000, GetBlock Latest])"
    by (rule sim_wait) (simp add: included_def advancing_def)
  have s: "scan_events (case events ?rcpt of None \<Rightarrow> [] | Some es \<Rightarrow> es) [] = Inr ''0x07''"
    by (simp add: included_def)
  have st: "status ?rcpt = Some 1" by (simp add: included_def)
  show ?thesis
    by (simp add: sendAttestation_unfold[OF a w] s st await_def c ret_def)
qed

text \<open>
  Claim C4: once the attest transaction is sent and its receipt is in, sendAttestation
  fails with "attestation tx failed" if the receipt's status is not 1; otherwise it
  fails with "could not retrieve attestation id" if the receipt has no Attested event;
  otherwise, with the Attested events decoded and the id of the last one extracted
  (a non-empty text), it awaits the confirmation waiter on the receipt and only then
  returns the id. Whenever it returns an id, the confirmation wait on the receipt has
  completed, and the history at the return is the history at the end of that wait.
\<close>

theorem sendAttestation_fails_or_confirms:
  assumes "attest env tr quote reg 10000000 = Inr tx"
      and "wait env (tr @ [Attest quote reg 10000000]) tx = Inr rcpt"
  shows
   "(status rcpt \<noteq> Some 1 \<longrightarrow>
       sendAttestation env quote reg tr =
         Some (Inl AttestationTxFailed, tr @ [Attest quote reg 10000000, WaitTx tx])) \<and>
    (status rcpt = Some 1 \<and> attested rcpt = [] \<longrightarrow>
       sendAttestation env quote reg tr =
         Some (Inl CouldNotRetrieveAttestationId, tr @ [Attest quote reg 10000000, WaitTx tx])) \<and>
    (status rcpt = Some 1 \<and> attested rcpt \<noteq> [] \<and> (\<forall>e\<in>set (attested rcpt). args e \<noteq> None) \<and>
     map_option tcbId (args (last (attested rcpt))) = Some tcb \<and> tcb \<noteq> [] \<longrightarrow>
       sendAttestation env quote reg tr =
         await (waitForConfirmation env rcpt) (\<lambda>_. ret tcb)
           (tr @ [Attest quote reg 10000000, WaitTx tx])) \<and>
    (\<forall>t tr'. sendAttestation env quote reg tr = Some (Inr t, tr') \<longrightarrow>
       waitForConfirmation env rcpt (tr @ [Attest quote reg 10000000, WaitTx tx])
         = Some (Inr (), tr'))"
proof (intro conjI impI allI)
  assume "status rcpt \<noteq> Some 1"
  then show "sendAttestation env quote reg tr =
         Some (Inl AttestationTxFailed, tr @ [Attest quote reg 10000000, WaitTx tx])"
    by (simp add: sendAttestation_unfold[OF assms])
next
  assume h: "status rcpt = Some 1 \<and> attested rcpt = []"
  have "\<exists>tcb. scan_events (case events rcpt of None \<Rightarrow> [] | Some es \<Rightarrow> es) [] = Inr tcb"
    using h by (intro scan_events_decoded) (simp add: attested_def)
  then obtain tcb where s: "scan_events (case events rcpt of None \<Rightarrow> [] | Some es \<Rightarrow> es) [] = Inr tcb"
    by blast
  from scan_events_Inr[OF s] h have "tcb = []" by (simp add: attested_def)
  with s h show "sendAttestation env quote reg tr =
         Some (Inl CouldNotRetrieveAttestationId, tr @ [Attest quote reg 10000000, WaitTx tx])"
    by (simp add: sendAttestation_unfold[OF assms])
next
  assume h: "status rcpt = Some 1 \<and> attested rcpt \<noteq> [] \<and> (\<forall>e\<in>set (attested rcpt). args e \<noteq> None) \<and>
     map_option tcbId (args (last (attested rcpt))) = Some tcb \<and> tcb \<noteq> []"
  have "\<exists>t. scan_events (case events rcpt of None \<Rightarrow> [] | Some es \<Rightarrow> es) [] = Inr t"
    using h by (intro scan_events_decoded) (simp add: attested_def)
  then obtain t where s: "scan_events (case events rcpt of None \<Rightarrow> [] | Some es \<Rightarrow> es) [] = Inr t"
    by blast
  from scan_events_Inr[OF s] h have "t = tcb" by (auto simp: attested_def)
  with s h show "sendAttestation env quote reg tr =
         await (waitForConfirmation env rcpt) (\<lambda>_. ret tcb)
           (tr @ [Attest quote reg 10000000, WaitTx tx])"
    by (simp add: sendAttestation_unfold[OF assms])
next
  fix t tr'
  assume "sendAttestation env quote reg tr = Some (Inr t, tr')"
  then show "waitForConfirmation env rcpt (tr @ [Attest quote reg 10000000, WaitTx tx])
         = Some (Inr (), tr')"
    by (auto simp: sendAttestation_unfold[OF assms] await_def ret_def
             split: if_splits sum.splits option.splits)
qed

text \<open>
  Witness for C4: a receipt with status 1 and one Attested event for the id 0x07, in the
  head block of the growing chain. The id is returned after the two head reads of the
  waiter.
\<close>

theorem sendAttestation_fails_or_confirms_witness:
  "attest (sim advancing (included (Some 1) [''0x07'']) lockbox_sim) [] [] reg0 10000000
     = Inr \<lparr>tx_hash = ''0x01''\<rparr> \<and>
   wait (sim advancing (included (Some 1) [''0x07'']) lockbox_sim) [Attest [] reg0 10000000]
       \<lparr>tx_hash = ''0x01''\<rparr>
     = Inr (included (Some 1) [''0x07''] [Attest [] reg0 10000000]) \<and>
   sendAttestation (sim advancing (included (Some 1) [''0x07'']) lockbox_sim) [] reg0 []
     = Some (Inr ''0x07'', [Attest [] reg0 10000000, WaitTx \<lparr>tx_hash = ''0x01''\<rparr>,
                            GetBlock Latest, Sleep 3000, GetBlock Latest])"
proof -
  let ?env = "sim advancing (included (Some 1) [''0x07'']) lockbox_sim"
  let ?rcpt = "included (Some 1) [''0x07''] [Attest [] reg0 10000000]"
  have a: "attest ?env [] [] reg0 10000000 = Inr \<lparr>tx_hash = ''0x01''\<rparr>"
    by (simp add: sim_def)
  have w: "wait ?env ([] @ [Attest [] reg0 10000000]) \<lparr>tx_hash = ''0x01''\<rparr> = Inr ?rcpt"
    by (simp add: sim_simps)
  have c: "waitForConfirmation ?env ?rcpt [Attest [] reg0 10000000, WaitTx \<lparr>tx_hash = ''0x01''\<rparr>]
      = Some (Inr (), [Attest [] reg0 10000000, WaitTx \<lparr>tx_hash = ''0x01''\<rparr>] @
                      [GetBlock Latest, Sleep 3000, GetBlock Latest])"
    by (rule sim_wait) (simp add: included_def advancing_def)
  have p: "status ?rcpt = Some 1 \<and> attested ?rcpt \<noteq> [] \<and>
      (\<forall>e\<in>set (attested ?rcpt). args e \<noteq> None) \<and>
      map_option tcbId (args (last (attested ?rcpt))) = Some ''0x07'' \<and> ''0x07'' \<noteq> []"
    by (simp add: included_def attested_def)
  from sendAttestation_fails_or_confirms[OF a w, of "''0x07''", THEN conjunct2, THEN conjunct2, THEN conjunct1, THEN mp, OF p]
  have "sendAttestation ?env [] reg0 [] =
      await (waitForConfirmation ?env ?rcpt) (\<lambda>_. ret ''0x07'')
        [Attest [] reg0 10000000, WaitTx \<lparr>tx_hash = ''0x01''\<rparr>]"
    by simp
  with a w c show ?thesis
    by (simp add: await_def ret_def)
qed

text \<open>
  Claim C10: when the receipt of the attest transaction holds more than one Attested
  event, sendAttestation returns the id of the last of them in log order: an id it
  returns is the id of the last Attested event, and with the Attested events decoded,
  the last id non-empty and the confirmation wait completed, it does return that id.
\<close>

theorem sendAttestation_returns_last_Attested:
  assumes "attest env tr quote reg 10000000 = Inr tx"
      and "wait env (tr @ [Attest quote reg 10000000]) tx = Inr rcpt"
  shows
   "(\<forall>tcb tr'. sendAttestation env quote reg tr = Some (Inr tcb, tr') \<longrightarrow>
       attested rcpt \<noteq> [] \<and> map_option tcbId (args (last (attested rcpt))) = Some tcb) \<and>
    (\<forall>a tr'. status rcpt = Some 1 \<and> (\<forall>e\<in>set (attested rcpt). args e \<noteq> None) \<and>
       attested rcpt \<noteq> [] \<and> args (last (attested rcpt)) = Some a \<and> tcbId a \<noteq> [] \<and>
       waitForConfirmation env rcpt (tr @ [Attest quote reg 10000000, WaitTx tx])
         = Some (Inr (), tr') \<longrightarrow>
       sendAttestation env quote reg tr = Some (Inr (tcbId a), tr'))"
proof (intro conjI impI allI)
  fix tcb tr'
  assume r: "sendAttestation env quote reg tr = Some (Inr tcb, tr')"
  then have s: "scan_events (case events rcpt of None \<Rightarrow> [] | Some es \<Rightarrow> es) [] = Inr tcb"
    and ne: "tcb \<noteq> []"
    by (auto simp: sendAttestation_unfold[OF assms] await_def ret_def
             split: if_splits sum.splits option.splits prod.splits)
  from scan_events_Inr[OF s] ne
  show "attested rcpt \<noteq> []" and "map_option tcbId (args (last (attested rcpt))) = Some tcb"
    by (auto simp: attested_def split: if_splits)
next
  fix a tr'
  assume h: "status rcpt = Some 1 \<and> (\<forall>e\<in>set (attested rcpt). args e \<noteq> None) \<and>
       attested rcpt \<noteq> [] \<and> args (last (attested rcpt)) = Some a \<and> tcbId a \<noteq> [] \<and>
       waitForConfirmation env rcpt (tr @ [Attest quote reg 10000000, WaitTx tx])
         = Some (Inr (), tr')"
  have "\<exists>t. scan_events (case events rcpt of None \<Rightarrow> [] | Some es \<Rightarrow> es) [] = Inr t"
    using h by (intro scan_events_decoded) (simp add: attested_def)
  then obtain t where s: "scan_events (case events rcpt of None \<Rightarrow> [] | Some es \<Rightarrow> es) [] = Inr t"
    by blast
  from scan_events_Inr[OF s] h have "t = tcbId a" by (auto simp: attested_def)
  with s h show "sendAttestation env quote reg tr = Some (Inr (tcbId a), tr')"
    by (simp add: sendAttestation_unfold[OF assms] await_def ret_def)
qed

text \<open>
  Witness for C10: a receipt with two Attested events, for the ids 0x07 and 0x09 in
  this order; the id returned is 0x09.
\<close>

theorem sendAttestation_returns_last_Attested_witness:
  "attest (sim advancing (included (Some 1) [''0x07'', ''0x09'']) lockbox_sim) [] [] reg0 10000000
     = Inr \<lparr>tx_hash = ''0x01''\<rparr> \<and>
   wait (sim advancing (included (Some 1) [''0x07'', ''0x09'']) lockbox_sim)
       [Attest [] reg0 10000000] \<lparr>tx_hash = ''0x01''\<rparr>
     = Inr (included (Some 1) [''0x07'', ''0x09''] [Attest [] reg0 10000000]) \<and>
   map (\<lambda>e. map_option tcbId (args e))
       (attested (included (Some 1) [''0x07'', ''0x09''] [Attest [] reg0 10000000]))
     = [Some ''0x07'', Some ''0x09''] \<and>
   sendAttestation (sim advancing (included (Some 1) [''0x07'', ''0x09'']) lockbox_sim) [] reg0 []
     = Some (Inr ''0x09'', [Attest [] reg0 10000000, WaitTx \<lparr>tx_hash = ''0x01''\<rparr>,
                            GetBlock Latest, Sleep 3000, GetBlock Latest])"
proof -
  let ?env = "sim advancing (included (Some 1) [''0x07'', ''0x09'']) lockbox_sim"
  let ?rcpt = "included (Some 1) [''0x07'', ''0x09''] [Attest [] reg0 10000000]"
  have a: "attest ?env [] [] reg0 10000000 = Inr \<lparr>tx_hash = ''0x01''\<rparr>"
    by (simp add: sim_def)
  have w: "wait ?env ([] @ [Attest [] reg0 10000000]) \<lparr>tx_hash = ''0x01''\<rparr> = Inr ?rcpt"
    by (simp add: sim_simps)
  have c: "waitForConfirmation ?env ?rcpt [Attest [] reg0 10000000, WaitTx \<lparr>tx_hash = ''0x01''\<rparr>]
      = Some (Inr (), [Attest [] reg0 10000000, WaitTx \<lparr>tx_hash = ''0x01''\<rparr>] @
                      [GetBlock Latest, Sleep 3000, GetBlock Latest])"
    by (rule sim_wait) (simp add: included_def advancing_def)
  have p: "status ?rcpt = Some 1 \<and> (\<forall>e\<in>set (attested ?rcpt). args e \<noteq> None) \<and>
      attested ?rcpt \<noteq> [] \<and> args (last (attested ?rcpt)) = Some \<lparr>tcbId = ''0x09''\<rparr> \<and>
      tcbId \<lparr>tcbId = ''0x09''\<rparr> \<noteq> [] \<and>
      waitForConfirmation ?env ?rcpt ([] @ [Attest [] reg0 10000000, WaitTx \<lparr>tx_hash = ''0x01''\<rparr>])
        = Some (Inr (), [Attest [] reg0 10000000, WaitTx \<lparr>tx_hash = ''0x01''\<rparr>,
                         GetBlock Latest, Sleep 3000, GetBlock Latest])"
    using c by (simp add: included_def attested_def)
  from sendAttestation_returns_last_Attested[OF a w, THEN conjunct2, THEN spec, THEN spec, THEN mp, OF p]
  have "sendAttestation ?env [] reg0 [] =
      Some (Inr ''0x09'', [Attest [] reg0 10000000, WaitTx \<lparr>tx_hash = ''0x01''\<rparr>,
                           GetBlock Latest, Sleep 3000, GetBlock Latest])"
    by simp
  moreover have "map (\<lambda>e. map_option tcbId (args e)) (attested ?rcpt) = [Some ''0x07'', Some ''0x09'']"
    by (simp add: included_def attested_def)
  ultimately show ?thesis using a w by simp
qed

subsection \<open>The lockbox key resolver\<close>

lemma getOrCreateKey_unfold:
  assumes "getKey env tr tcb = Inr key"
  shows "getOrCreateKey env tcb tr =
     (if \<not> all_zero key then Some (arrayify env key, tr @ [GetKey tcb])
      else
        (case createKey env (tr @ [GetKey tcb, RandomBytes 32]) tcb
                (randomBytes env (tr @ [GetKey tcb]) 32) 10000000 of
           Inl e \<Rightarrow> Some (Inl e, tr @ [GetKey tcb, RandomBytes 32,
                         CreateKey tcb (randomBytes env (tr @ [GetKey tcb]) 32) 10000000])
         | Inr tx \<Rightarrow>
            (case wait env (tr @ [GetKey tcb, RandomBytes 32,
                         CreateKey tcb (randomBytes env (tr @ [GetKey tcb]) 32) 10000000]) tx of
               Inl e \<Rightarrow> Some (Inl e, tr @ [GetKey tcb, RandomBytes 32,
                         CreateKey tcb (randomBytes env (tr @ [GetKey tcb]) 32) 10000000, WaitTx tx])
             | Inr rcpt \<Rightarrow>
                await (waitForConfirmation env rcpt)
                  (\<lambda>_. await (request (GetKey tcb) (\<lambda>tr. getKey env tr tcb))
                         (\<lambda>key'. lift (arrayify env key')))
                  (tr @ [GetKey tcb, RandomBytes 32,
                         CreateKey tcb (randomBytes env (tr @ [GetKey tcb]) 32) 10000000, WaitTx tx]))))"
  using assms
  by (simp add: getOrCreateKey_def await_request lift_def split: sum.splits)

lemma getOrCreateKey_trace:
  assumes "getOrCreateKey env tcb tr = Some (r, tr')"
  shows "\<exists>evs. tr' = tr @ evs \<and> \<not> list_ex is_Attest evs"
proof (cases "getKey env tr tcb")
  case (Inl e)
  with assms have "tr' = tr @ [GetKey tcb]"
    by (auto simp: getOrCreateKey_def await_request)
  then show ?thesis by simp
next
  case key: (Inr key)
  let ?rnd = "randomBytes env (tr @ [GetKey tcb]) 32"
  let ?t2 = "tr @ [GetKey tcb, RandomBytes 32]"
  let ?t3 = "tr @ [GetKey tcb, RandomBytes 32, CreateKey tcb ?rnd 10000000]"
  show ?thesis
  proof (cases "all_zero key")
    case False
    with assms have "tr' = tr @ [GetKey tcb]"
      by (simp add: getOrCreateKey_unfold[OF key])
    then show ?thesis by simp
  next
    case True
    show ?thesis
    proof (cases "createKey env ?t2 tcb ?rnd 10000000")
      case (Inl e)
      with assms True have "tr' = ?t3"
        by (simp add: getOrCreateKey_unfold[OF key])
      then show ?thesis by simp
    next
      case tx: (Inr tx)
      show ?thesis
      proof (cases "wait env ?t3 tx")
        case (Inl e)
        with assms True tx have "tr' = ?t3 @ [WaitTx tx]"
          by (simp add: getOrCreateKey_unfold[OF key])
        then show ?thesis by simp
      next
        case (Inr rcpt)
        let ?t4 = "tr @ [GetKey tcb, RandomBytes 32, CreateKey tcb ?rnd 10000000, WaitTx tx]"
        show ?thesis
        proof (cases "waitForConfirmation env rcpt ?t4")
          case None
          with assms True tx Inr show ?thesis
            by (simp add: getOrCreateKey_unfold[OF key] await_def)
        next
          case (Some p)
          obtain r1 tr1 where p: "p = (r1, tr1)" by (cases p)
          from wait_trace[OF Some[unfolded p]] obtain evs where
            evs: "tr1 = ?t4 @ evs" "\<not> list_ex is_Attest evs"
            by blast
          from assms True tx Inr have "tr' = tr1 \<or> tr' = tr1 @ [GetKey tcb]"
            by (auto simp: getOrCreateKey_unfold[OF key] await_def request_def lift_def Some p
                     split: sum.splits)
          then show ?thesis
          proof
            assume "tr' = tr1"
            with evs have "tr' = tr @ ([GetKey tcb, RandomBytes 32, CreateKey tcb ?rnd 10000000,
                WaitTx tx] @ evs) \<and> \<not> list_ex is_Attest ([GetKey tcb, RandomBytes 32,
                CreateKey tcb ?rnd 10000000, WaitTx tx] @ evs)" by simp
            then show ?thesis by blast
          next
            assume "tr' = tr1 @ [GetKey tcb]"
            with evs have "tr' = tr @ ([GetKey tcb, RandomBytes 32, CreateKey tcb ?rnd 10000000,
                WaitTx tx] @ evs @ [GetKey tcb]) \<and> \<not> list_ex is_Attest ([GetKey tcb, RandomBytes 32,
                CreateKey tcb ?rnd 10000000, WaitTx tx] @ evs @ [GetKey tcb])" by simp
            then show ?thesis by blast
          qed
        qed
      qed
    qed
  qed
qed

lemma sim_create_run:
  assumes "key tr tcb = z" "all_zero z"
    "key (tr @ [GetKey tcb, RandomBytes 32, CreateKey tcb (replicate 32 7) 10000000,
                 WaitTx \<lparr>tx_hash = ''0x02''\<rparr>, GetBlock Latest, Sleep 3000, GetBlock Latest]) tcb = z'"
  shows "getOrCreateKey (sim advancing (included st ids) key) tcb tr =
     Some (decode (drop 2 z'),
           tr @ [GetKey tcb, RandomBytes 32, CreateKey tcb (replicate 32 7) 10000000,
                 WaitTx \<lparr>tx_hash = ''0x02''\<rparr>, GetBlock Latest, Sleep 3000, GetBlock Latest,
                 GetKey tcb])"
proof -
  let ?env = "sim advancing (included st ids) key"
  let ?t3 = "tr @ [GetKey tcb, RandomBytes 32, CreateKey tcb (replicate 32 7) 10000000]"
  let ?t4 = "tr @ [GetKey tcb, RandomBytes 32, CreateKey tcb (replicate 32 7) 10000000,
                   WaitTx \<lparr>tx_hash = ''0x02''\<rparr>]"
  have k: "getKey ?env tr tcb = Inr z" using assms(1) by (simp add: sim_simps)
  have c: "waitForConfirmation ?env (included st ids ?t3) ?t4
      = Some (Inr (), ?t4 @ [GetBlock Latest, Sleep 3000, GetBlock Latest])"
    by (rule sim_wait) (simp add: included_def advancing_def)
  show ?thesis
    using assms(2,3)
    by (simp add: getOrCreateKey_unfold[OF k] sim_fields sim_simps await_def c request_def lift_def)
qed

text \<open>
  Claim C6: getOrCreateKey first reads the key of the id. If the value read is not
  all-zero, it returns that value and the read is its only effect. If the value is
  all-zero, it draws 32 random bytes, submits createKey with them and the gas limit,
  waits for the receipt and for the confirmation, reads again and returns the value of
  this second read. Hence, when a first call has created the key (its second read found
  a value that is not all-zero) and the lockbox still answers with that value, a second
  call for the same id returns the same bytes and its only effect is one read.
\<close>

theorem getOrCreateKey_reads_then_creates:
  assumes "getKey env tr tcb = Inr key"
  shows
   "(\<not> all_zero key \<longrightarrow>
       getOrCreateKey env tcb tr = Some (arrayify env key, tr @ [GetKey tcb])) \<and>
    (\<forall>tx rcpt tr' key'.
       all_zero key \<and>
       createKey env (tr @ [GetKey tcb, RandomBytes 32]) tcb
         (randomBytes env (tr @ [GetKey tcb]) 32) 10000000 = Inr tx \<and>
       wait env (tr @ [GetKey tcb, RandomBytes 32,
                       CreateKey tcb (randomBytes env (tr @ [GetKey tcb]) 32) 10000000]) tx
         = Inr rcpt \<and>
       waitForConfirmation env rcpt
         (tr @ [GetKey tcb, RandomBytes 32,
                CreateKey tcb (randomBytes env (tr @ [GetKey tcb]) 32) 10000000, WaitTx tx])
         = Some (Inr (), tr') \<and>
       getKey env tr' tcb = Inr key' \<longrightarrow>
       getOrCreateKey env tcb tr = Some (arrayify env key', tr' @ [GetKey tcb])) \<and>
    (\<forall>k tr1 key1.
       all_zero key \<and> getOrCreateKey env tcb tr = Some (Inr k, tr1) \<and>
       getKey env (butlast tr1) tcb = Inr key1 \<and> \<not> all_zero key1 \<and>
       getKey env tr1 tcb = Inr key1 \<longrightarrow>
       getOrCreateKey env tcb tr1 = Some (Inr k, tr1 @ [GetKey tcb]))"
proof (intro conjI impI allI)
  assume "\<not> all_zero key"
  then show "getOrCreateKey env tcb tr = Some (arrayify env key, tr @ [GetKey tcb])"
    by (simp add: getOrCreateKey_unfold[OF assms])
next
  fix tx rcpt tr' key'
  assume h: "all_zero key \<and>
       createKey env (tr @ [GetKey tcb, RandomBytes 32]) tcb
         (randomBytes env (tr @ [GetKey tcb]) 32) 10000000 = Inr tx \<and>
       wait env (tr @ [GetKey tcb, RandomBytes 32,
                       CreateKey tcb (randomBytes env (tr @ [GetKey tcb]) 32) 10000000]) tx
         = Inr rcpt \<and>
       waitForConfirmation env rcpt
         (tr @ [GetKey tcb, RandomBytes 32,
                CreateKey tcb (randomBytes env (tr @ [GetKey tcb]) 32) 10000000, WaitTx tx])
         = Some (Inr (), tr') \<and>
       getKey env tr' tcb = Inr key'"
  then have f: "waitForConfirmation env rcpt
         (tr @ [GetKey tcb, RandomBytes 32,
                CreateKey tcb (randomBytes env (tr @ [GetKey tcb]) 32) 10000000, WaitTx tx])
         = Some (Inr (), tr')"
    by blast
  from h have "getOrCreateKey env tcb tr =
      await (waitForConfirmation env rcpt)
        (\<lambda>_. await (request (GetKey tcb) (\<lambda>tr. getKey env tr tcb))
               (\<lambda>key'. lift (arrayify env key')))
        (tr @ [GetKey tcb, RandomBytes 32,
               CreateKey tcb (randomBytes env (tr @ [GetKey tcb]) 32) 10000000, WaitTx tx])"
    by (simp add: getOrCreateKey_unfold[OF assms])
  also have "\<dots> = Some (arrayify env key', tr' @ [GetKey tcb])"
    using h f by (simp add: await_def request_def lift_def)
  finally show "getOrCreateKey env tcb tr = Some (arrayify env key', tr' @ [GetKey tcb])" .
next
  fix k tr1 key1
  assume h: "all_zero key \<and> getOrCreateKey env tcb tr = Some (Inr k, tr1) \<and>
       getKey env (butlast tr1) tcb = Inr key1 \<and> \<not> all_zero key1 \<and>
       getKey env tr1 tcb = Inr key1"
  then have "arrayify env key1 = Inr k"
    by (auto simp: getOrCreateKey_unfold[OF assms] await_def request_def lift_def
             split: sum.splits option.splits prod.splits)
  with h show "getOrCreateKey env tcb tr1 = Some (Inr k, tr1 @ [GetKey tcb])"
    by (simp add: getOrCreateKey_unfold[where key = key1])
qed

text \<open>
  Witness for C6: the lockbox that holds no key for the id 0x07 until one is created.
  The first call creates the key and returns it; the second call, started where the
  first ended, returns the same bytes after a single read.
\<close>

theorem getOrCreateKey_reads_then_creates_witness:
  "getOrCreateKey (sim advancing (included (Some 1) []) lockbox_sim) ''0x07'' [] =
     Some (Inr (concat (replicate 16 [42, 43])),
       [GetKey ''0x07'', RandomBytes 32, CreateKey ''0x07'' (replicate 32 7) 10000000,
        WaitTx \<lparr>tx_hash = ''0x02''\<rparr>, GetBlock Latest, Sleep 3000, GetBlock Latest,
        GetKey ''0x07'']) \<and>
   getOrCreateKey (sim advancing (included (Some 1) []) lockbox_sim) ''0x07''
       [GetKey ''0x07'', RandomBytes 32, CreateKey ''0x07'' (replicate 32 7) 10000000,
        WaitTx \<lparr>tx_hash = ''0x02''\<rparr>, GetBlock Latest, Sleep 3000, GetBlock Latest,
        GetKey ''0x07''] =
     Some (Inr (concat (replicate 16 [42, 43])),
       [GetKey ''0x07'', RandomBytes 32, CreateKey ''0x07'' (replicate 32 7) 10000000,
        WaitTx \<lparr>tx_hash = ''0x02''\<rparr>, GetBlock Latest, Sleep 3000, GetBlock Latest,
        GetKey ''0x07'', GetKey ''0x07''])"
proof -
  let ?env = "sim advancing (included (Some 1) []) lockbox_sim"
  let ?t3 = "[GetKey ''0x07'', RandomBytes 32, CreateKey ''0x07'' (replicate 32 7) 10000000]"
  let ?t4 = "[GetKey ''0x07'', RandomBytes 32, CreateKey ''0x07'' (replicate 32 7) 10000000,
        WaitTx \<lparr>tx_hash = ''0x02''\<rparr>]"
  let ?t7 = "[GetKey ''0x07'', RandomBytes 32, CreateKey ''0x07'' (replicate 32 7) 10000000,
        WaitTx \<lparr>tx_hash = ''0x02''\<rparr>, GetBlock Latest, Sleep 3000, GetBlock Latest]"
  let ?t8 = "[GetKey ''0x07'', RandomBytes 32, CreateKey ''0x07'' (replicate 32 7) 10000000,
        WaitTx \<lparr>tx_hash = ''0x02''\<rparr>, GetBlock Latest, Sleep 3000, GetBlock Latest,
        GetKey ''0x07'']"
  have k0: "getKey ?env [] ''0x07'' = Inr zero32"
    by (simp add: sim_simps lockbox_sim_def)
  have c: "waitForConfirmation ?env (included (Some 1) [] ?t3) ?t4
      = Some (Inr (), ?t4 @ [GetBlock Latest, Sleep 3000, GetBlock Latest])"
    by (rule sim_wait) (simp add: included_def advancing_def)
  have first: "all_zero zero32 \<and>
       createKey ?env ([] @ [GetKey ''0x07'', RandomBytes 32]) ''0x07''
         (randomBytes ?env ([] @ [GetKey ''0x07'']) 32) 10000000 = Inr \<lparr>tx_hash = ''0x02''\<rparr> \<and>
       wait ?env ([] @ [GetKey ''0x07'', RandomBytes 32,
                       CreateKey ''0x07'' (randomBytes ?env ([] @ [GetKey ''0x07'']) 32) 10000000])
           \<lparr>tx_hash = ''0x02''\<rparr>
         = Inr (included (Some 1) [] ?t3) \<and>
       waitForConfirmation ?env (included (Some 1) [] ?t3)
         ([] @ [GetKey ''0x07'', RandomBytes 32,
                CreateKey ''0x07'' (randomBytes ?env ([] @ [GetKey ''0x07'']) 32) 10000000,
                WaitTx \<lparr>tx_hash = ''0x02''\<rparr>])
         = Some (Inr (), ?t7) \<and>
       getKey ?env ?t7 ''0x07'' = Inr key32"
    using c by (simp add: sim_simps sim_fields all_zero_zero32 lockbox_sim_def)
  from getOrCreateKey_reads_then_creates[OF k0, THEN conjunct2, THEN conjunct1, THEN spec, THEN spec, THEN spec, THEN spec,
          THEN mp, OF first]
  have run1: "getOrCreateKey ?env ''0x07'' [] = Some (Inr (concat (replicate 16 [42, 43])), ?t8)"
    by (simp add: sim_fields decode_key32)
  have second: "all_zero zero32 \<and>
       getOrCreateKey ?env ''0x07'' [] = Some (Inr (concat (replicate 16 [42, 43])), ?t8) \<and>
       getKey ?env (butlast ?t8) ''0x07'' = Inr key32 \<and> \<not> all_zero key32 \<and>
       getKey ?env ?t8 ''0x07'' = Inr key32"
    using run1 by (simp add: sim_simps all_zero_zero32 not_all_zero_key32 lockbox_sim_def)
  from getOrCreateKey_reads_then_creates[OF k0, THEN conjunct2, THEN conjunct2, THEN spec, THEN spec, THEN spec,
          THEN mp, OF second]
  have run2: "getOrCreateKey ?env ''0x07'' ?t8 =
      Some (Inr (concat (replicate 16 [42, 43])), ?t8 @ [GetKey ''0x07''])" .
  from run1 run2 show ?thesis by simp
qed

subsection \<open>The key derivation and its registration\<close>

lemma fetchKey_unfold:
  assumes "getBlock env (tr @ [Now]) Latest = Inr currentBlock"
      and "getBlock env (tr @ [Now, GetBlock Latest]) (Number (number currentBlock - 1))
             = Inr prevBlock"
  shows "fetchKeySapphire_body env this tr =
           await (sendAttestation env (mockQuote env (registration_at env this tr prevBlock))
                    (registration_at env this tr prevBlock))
             (getOrCreateKey env)
             (tr @ [Now, GetBlock Latest, GetBlock (Number (number currentBlock - 1))])"
  using assms
  by (simp add: fetchKeySapphire_body_def await_request await_ret Let_def registration_at_def)

text \<open>
  What a run of the derivation adds to the history: either no attestation at all, or,
  after the clock and the two blocks are read, one attestation of the registration built
  from them.
\<close>

lemma fetchKey_events:
  assumes run: "fetchKeySapphire_body env this tr = Some (r, tr')"
  shows "(\<exists>evs. tr' = tr @ evs \<and> \<not> list_ex is_Attest evs) \<or>
         (\<exists>currentBlock prevBlock evs.
            getBlock env (tr @ [Now]) Latest = Inr currentBlock \<and>
            getBlock env (tr @ [Now, GetBlock Latest]) (Number (number currentBlock - 1))
              = Inr prevBlock \<and>
            tr' = tr @ [Now, GetBlock Latest, GetBlock (Number (number currentBlock - 1)),
                        Attest (mockQuote env (registration_at env this tr prevBlock))
                          (registration_at env this tr prevBlock) 10000000] @ evs \<and>
            \<not> list_ex is_Attest evs)"
proof (cases "getBlock env (tr @ [Now]) Latest")
  case (Inl e)
  with run have "tr' = tr @ [Now, GetBlock Latest]"
    by (auto simp: fetchKeySapphire_body_def await_request Let_def)
  then have "tr' = tr @ [Now, GetBlock Latest] \<and> \<not> list_ex is_Attest [Now, GetBlock Latest]"
    by simp
  then show ?thesis by blast
next
  case cur: (Inr currentBlock)
  show ?thesis
  proof (cases "getBlock env (tr @ [Now, GetBlock Latest]) (Number (number currentBlock - 1))")
    case (Inl e)
    with run cur have "tr' = tr @ [Now, GetBlock Latest, GetBlock (Number (number currentBlock - 1))]"
      by (auto simp: fetchKeySapphire_body_def await_request Let_def)
    then have "tr' = tr @ [Now, GetBlock Latest, GetBlock (Number (number currentBlock - 1))] \<and>
        \<not> list_ex is_Attest [Now, GetBlock Latest, GetBlock (Number (number currentBlock - 1))]"
      by simp
    then show ?thesis by blast
  next
    case prev: (Inr prevBlock)
    let ?reg = "registration_at env this tr prevBlock"
    let ?t3 = "tr @ [Now, GetBlock Latest, GetBlock (Number (number currentBlock - 1))]"
    have "\<exists>r1 tr1. sendAttestation env (mockQuote env ?reg) ?reg ?t3 = Some (r1, tr1) \<and>
        (tr' = tr1 \<or> (\<exists>tcb. getOrCreateKey env tcb tr1 = Some (r, tr')))"
    proof (cases "sendAttestation env (mockQuote env ?reg) ?reg ?t3")
      case None
      with run show ?thesis by (simp add: fetchKey_unfold[OF cur prev] await_def)
    next
      case (Some p)
      obtain r1 tr1 where p: "p = (r1, tr1)" by (cases p)
      show ?thesis
      proof (cases r1)
        case (Inl e)
        with run Some p have "tr' = tr1" by (simp add: fetchKey_unfold[OF cur prev] await_def)
        with Some p show ?thesis by simp
      next
        case (Inr tcb)
        with run Some p have "getOrCreateKey env tcb tr1 = Some (r, tr')"
          by (simp add: fetchKey_unfold[OF cur prev] await_def)
        with Some p show ?thesis by blast
      qed
    qed
    then obtain r1 tr1 where
      sa: "sendAttestation env (mockQuote env ?reg) ?reg ?t3 = Some (r1, tr1)"
      and rest: "tr' = tr1 \<or> (\<exists>tcb. getOrCreateKey env tcb tr1 = Some (r, tr'))"
      by blast
    from sendAttestation_trace[OF sa] obtain evs where
      evs: "tr1 = ?t3 @ Attest (mockQuote env ?reg) ?reg 10000000 # evs" "\<not> list_ex is_Attest evs"
      by blast
    from rest obtain evs' where evs': "tr' = tr1 @ evs'" "\<not> list_ex is_Attest evs'"
    proof
      assume "tr' = tr1"
      then have "tr' = tr1 @ [] \<and> \<not> list_ex is_Attest []" by simp
      then show ?thesis using that by blast
    next
      assume "\<exists>tcb. getOrCreateKey env tcb tr1 = Some (r, tr')"
      then obtain tcb where "getOrCreateKey env tcb tr1 = Some (r, tr')" by blast
      from getOrCreateKey_trace[OF this] show ?thesis using that by blast
    qed
    have "tr' = tr @ [Now, GetBlock Latest, GetBlock (Number (number currentBlock - 1)),
        Attest (mockQuote env ?reg) ?reg 10000000] @ (evs @ evs') \<and>
        \<not> list_ex is_Attest (evs @ evs')"
      using evs evs' by simp
    with cur prev show ?thesis by blast
  qed
qed

lemma fetchKey_trace:
  assumes run: "fetchKeySapphire_body env this tr = Some (res, tr')"
      and att: "Attest q r g \<in> set (drop (length tr) tr')"
  shows "\<exists>currentBlock prevBlock.
           getBlock env (tr @ [Now]) Latest = Inr currentBlock \<and>
           getBlock env (tr @ [Now, GetBlock Latest]) (Number (number currentBlock - 1))
             = Inr prevBlock \<and>
           r = registration_at env this tr prevBlock"
  using fetchKey_events[OF run]
proof
  assume "\<exists>evs. tr' = tr @ evs \<and> \<not> list_ex is_Attest evs"
  then obtain evs where "tr' = tr @ evs" "\<forall>ev\<in>set evs. \<not> is_Attest ev"
    by (auto simp: list_ex_iff)
  with att have "Attest q r g \<in> set evs" by simp
  with \<open>\<forall>ev\<in>set evs. \<not> is_Attest ev\<close> have "\<not> is_Attest (Attest q r g)" by blast
  then show ?thesis by simp
next
  assume "\<exists>currentBlock prevBlock evs.
            getBlock env (tr @ [Now]) Latest = Inr currentBlock \<and>
            getBlock env (tr @ [Now, GetBlock Latest]) (Number (number currentBlock - 1))
              = Inr prevBlock \<and>
            tr' = tr @ [Now, GetBlock Latest, GetBlock (Number (number currentBlock - 1)),
                        Attest (mockQuote env (registration_at env this tr prevBlock))
                          (registration_at env this tr prevBlock) 10000000] @ evs \<and>
            \<not> list_ex is_Attest evs"
  then obtain currentBlock prevBlock evs where
    h: "getBlock env (tr @ [Now]) Latest = Inr currentBlock"
       "getBlock env (tr @ [Now, GetBlock Latest]) (Number (number currentBlock - 1)) = Inr prevBlock"
       "tr' = tr @ [Now, GetBlock Latest, GetBlock (Number (number currentBlock - 1)),
                    Attest (mockQuote env (registration_at env this tr prevBlock))
                      (registration_at env this tr prevBlock) 10000000] @ evs"
       "\<not> list_ex is_Attest evs"
    by blast
  from h(4) have "\<forall>ev\<in>set evs. \<not> is_Attest ev" by (simp add: list_ex_iff)
  with h(3) att have "r = registration_at env this tr prevBlock"
    by auto
  with h(1,2) show ?thesis by blast
qed

lemma fetchKey_adds:
  assumes run: "fetchKeySapphire_body env this tr = Some (r, tr')"
  shows "\<exists>evs. tr' = tr @ evs \<and> length (filter is_Attest evs) \<le> 1"
  using fetchKey_events[OF run]
proof
  assume "\<exists>evs. tr' = tr @ evs \<and> \<not> list_ex is_Attest evs"
  then obtain evs where "tr' = tr @ evs" "filter is_Attest evs = []"
    by (auto simp: list_ex_iff filter_empty_conv)
  then have "tr' = tr @ evs \<and> length (filter is_Attest evs) \<le> 1" by simp
  then show ?thesis by blast
next
  assume "\<exists>currentBlock prevBlock evs.
            getBlock env (tr @ [Now]) Latest = Inr currentBlock \<and>
            getBlock env (tr @ [Now, GetBlock Latest]) (Number (number currentBlock - 1))
              = Inr prevBlock \<and>
            tr' = tr @ [Now, GetBlock Latest, GetBlock (Number (number currentBlock - 1)),
                        Attest (mockQuote env (registration_at env this tr prevBlock))
                          (registration_at env this tr prevBlock) 10000000] @ evs \<and>
            \<not> list_ex is_Attest evs"
  then obtain currentBlock :: block and prevBlock evs where
    h: "tr' = tr @ [Now, GetBlock Latest, GetBlock (Number (number currentBlock - 1)),
                    Attest (mockQuote env (registration_at env this tr prevBlock))
                      (registration_at env this tr prevBlock) 10000000] @ evs"
       "filter is_Attest evs = []"
    by (auto simp: list_ex_iff filter_empty_conv)
  let ?evs = "[Now, GetBlock Latest, GetBlock (Number (number currentBlock - 1)),
               Attest (mockQuote env (registration_at env this tr prevBlock))
                 (registration_at env this tr prevBlock) 10000000] @ evs"
  have "tr' = tr @ ?evs \<and> length (filter is_Attest ?evs) \<le> 1"
    using h by simp
  then show ?thesis by blast
qed

lemma sim_fetch_run:
  "fetchKeySapphire_body (sim advancing (included (Some 1) [''0x07'']) lockbox_sim) this [] =
     Some (Inr (concat (replicate 16 [42, 43])),
       [Now, GetBlock Latest, GetBlock (Number 99),
        Attest [] \<lparr>baseBlockHash = ''0xbb'', baseBlockNumber = 99, expiry = 1700003600,
                    registrant = localWallet_address this, tokenExpiry = 1700003600\<rparr> 10000000,
        WaitTx \<lparr>tx_hash = ''0x01''\<rparr>, GetBlock Latest, Sleep 3000, GetBlock Latest,
        GetKey ''0x07'', RandomBytes 32, CreateKey ''0x07'' (replicate 32 7) 10000000,
        WaitTx \<lparr>tx_hash = ''0x02''\<rparr>, GetBlock Latest, Sleep 3000, GetBlock Latest,
        GetKey ''0x07''])"
proof -
  let ?env = "sim advancing (included (Some 1) [''0x07'']) lockbox_sim"
  have cur: "getBlock ?env ([] @ [Now]) Latest = Inr \<lparr>number = 100, hash = ''0xaa''\<rparr>"
    by (simp add: sim_simps advancing_def)
  have prev: "getBlock ?env ([] @ [Now, GetBlock Latest])
      (Number (number \<lparr>number = 100, hash = ''0xaa''\<rparr> - 1)) = Inr \<lparr>number = 99, hash = ''0xbb''\<rparr>"
    by (simp add: sim_simps)
  let ?reg = "\<lparr>baseBlockHash = ''0xbb'', baseBlockNumber = 99, expiry = 1700003600,
                    registrant = localWallet_address this, tokenExpiry = 1700003600\<rparr>"
  let ?t8 = "[Now, GetBlock Latest, GetBlock (Number 99), Attest [] ?reg 10000000,
        WaitTx \<lparr>tx_hash = ''0x01''\<rparr>, GetBlock Latest, Sleep 3000, GetBlock Latest]"
  have reg: "registration_at ?env this [] \<lparr>number = 99, hash = ''0xbb''\<rparr> = ?reg"
    by (simp add: registration_at_def sim_fields)
  have sa: "sendAttestation ?env [] ?reg [Now, GetBlock Latest, GetBlock (Number 99)]
      = Some (Inr ''0x07'', ?t8)"
    by (simp add: sim_attest_run)
  have gk: "getOrCreateKey ?env ''0x07'' ?t8 =
      Some (decode (drop 2 key32), ?t8 @ [GetKey ''0x07'', RandomBytes 32,
        CreateKey ''0x07'' (replicate 32 7) 10000000,
        WaitTx \<lparr>tx_hash = ''0x02''\<rparr>, GetBlock Latest, Sleep 3000, GetBlock Latest,
        GetKey ''0x07''])"
    by (rule sim_create_run[where z = zero32])
       (simp_all add: lockbox_sim_def all_zero_zero32)
  show ?thesis
    by (simp add: fetchKey_unfold[OF cur prev] reg sim_fields await_def sa gk decode_key32)
qed

text \<open>
  Claim C8: every registration that a run of the key derivation submits has
  \<open>expiry = tokenExpiry\<close>, both the clock's time in seconds plus 3600; its registrant is
  the address of the local wallet; and its base block number and hash are those of the
  block that the node returned for the number of the head minus one.
\<close>

theorem fetchKeySapphire_registration:
  assumes "fetchKeySapphire_body env this tr = Some (res, tr')"
      and "Attest q r g \<in> set (drop (length tr) tr')"
  shows "expiry r = tokenExpiry r \<and> expiry r = now_ms env tr div 1000 + 3600 \<and>
         registrant r = localWallet_address this \<and>
         (\<exists>currentBlock prevBlock.
            getBlock env (tr @ [Now]) Latest = Inr currentBlock \<and>
            getBlock env (tr @ [Now, GetBlock Latest]) (Number (number currentBlock - 1))
              = Inr prevBlock \<and>
            baseBlockNumber r = number prevBlock \<and> baseBlockHash r = hash prevBlock)"
proof -
  from fetchKey_trace[OF assms] obtain currentBlock prevBlock where
    h: "getBlock env (tr @ [Now]) Latest = Inr currentBlock"
       "getBlock env (tr @ [Now, GetBlock Latest]) (Number (number currentBlock - 1)) = Inr prevBlock"
       "r = registration_at env this tr prevBlock"
    by blast
  from h(3) have "expiry r = tokenExpiry r" "expiry r = now_ms env tr div 1000 + 3600"
    "registrant r = localWallet_address this"
    "baseBlockNumber r = number prevBlock" "baseBlockHash r = hash prevBlock"
    by (simp_all add: registration_at_def)
  with h(1,2) show ?thesis by blast
qed

text \<open>
  Witness for C8: a run of the derivation on the growing chain, at clock time
  1700000000999 ms and head 100; the registration submitted expires at 1700003600 and
  is based on block 99.
\<close>

theorem fetchKeySapphire_registration_witness:
  "fetchKeySapphire_body (sim advancing (included (Some 1) [''0x07'']) lockbox_sim)
     \<lparr>localWallet_address = ''0x10ca1''\<rparr> [] =
     Some (Inr (concat (replicate 16 [42, 43])),
       [Now, GetBlock Latest, GetBlock (Number 99),
        Attest [] \<lparr>baseBlockHash = ''0xbb'', baseBlockNumber = 99, expiry = 1700003600,
                    registrant = ''0x10ca1'', tokenExpiry = 1700003600\<rparr> 10000000,
        WaitTx \<lparr>tx_hash = ''0x01''\<rparr>, GetBlock Latest, Sleep 3000, GetBlock Latest,
        GetKey ''0x07'', RandomBytes 32, CreateKey ''0x07'' (replicate 32 7) 10000000,
        WaitTx \<lparr>tx_hash = ''0x02''\<rparr>, GetBlock Latest, Sleep 3000, GetBlock Latest,
        GetKey ''0x07'']) \<and>
   now_ms (sim advancing (included (Some 1) [''0x07'']) lockbox_sim) [] div 1000 + 3600
     = 1700003600 \<and>
   getBlock (sim advancing (included (Some 1) [''0x07'']) lockbox_sim) [Now] Latest
     = Inr \<lparr>number = 100, hash = ''0xaa''\<rparr> \<and>
   getBlock (sim advancing (included (Some 1) [''0x07'']) lockbox_sim) [Now, GetBlock Latest]
       (Number 99)
     = Inr \<lparr>number = 99, hash = ''0xbb''\<rparr>"
proof -
  let ?env = "sim advancing (included (Some 1) [''0x07'']) lockbox_sim"
  let ?esm = "\<lparr>localWallet_address = ''0x10ca1''\<rparr>"
  let ?reg = "\<lparr>baseBlockHash = ''0xbb'', baseBlockNumber = 99, expiry = 1700003600,
                registrant = ''0x10ca1'', tokenExpiry = 1700003600\<rparr>"
  note run = sim_fetch_run[of ?esm, simplified]
  have att: "Attest [] ?reg 10000000 \<in> set (drop (length ([]::trace))
       [Now, GetBlock Latest, GetBlock (Number 99), Attest [] ?reg 10000000,
        WaitTx \<lparr>tx_hash = ''0x01''\<rparr>, GetBlock Latest, Sleep 3000, GetBlock Latest,
        GetKey ''0x07'', RandomBytes 32, CreateKey ''0x07'' (replicate 32 7) 10000000,
        WaitTx \<lparr>tx_hash = ''0x02''\<rparr>, GetBlock Latest, Sleep 3000, GetBlock Latest,
        GetKey ''0x07''])"
    by simp
  from fetchKeySapphire_registration[OF run att] run show ?thesis
    by (simp add: sim_simps sim_fields advancing_def)
qed

subsection \<open>Failed transactions\<close>

text \<open>
  A rejection of \<open>tx.wait()\<close> is the outcome of the function that awaits it: nothing
  follows the request in the history.
\<close>

lemma sendAttestation_rejected:
  assumes "attest env tr q r 10000000 = Inr tx"
      and "wait env (tr @ [Attest q r 10000000]) tx = Inl e"
  shows "sendAttestation env q r tr = Some (Inl e, tr @ [Attest q r 10000000, WaitTx tx])"
  using assms by (simp add: sendAttestation_def await_request)

lemma getOrCreateKey_rejected:
  assumes "getKey env tr tcb = Inr key" "all_zero key"
      and "createKey env (tr @ [GetKey tcb, RandomBytes 32]) tcb
             (randomBytes env (tr @ [GetKey tcb]) 32) 10000000 = Inr tx"
      and "wait env (tr @ [GetKey tcb, RandomBytes 32,
             CreateKey tcb (randomBytes env (tr @ [GetKey tcb]) 32) 10000000]) tx = Inl e"
  shows "getOrCreateKey env tcb tr =
           Some (Inl e, tr @ [GetKey tcb, RandomBytes 32,
             CreateKey tcb (randomBytes env (tr @ [GetKey tcb]) 32) 10000000, WaitTx tx])"
  using assms by (simp add: getOrCreateKey_unfold[OF assms(1)])

text \<open>The simulated collaborators whose \<open>wait\<close> rejects failed transactions.\<close>

lemma sim_ethers_simps:
  "getBlock (sim_ethers mined) tr Latest = Inr \<lparr>number = advancing tr, hash = ''0xaa''\<rparr>"
  "getBlock (sim_ethers mined) tr (Number n) = Inr \<lparr>number = n, hash = ''0xbb''\<rparr>"
  "wait (sim_ethers mined) tr tx = wait_outcome (mined tx tr)"
  "getKey (sim_ethers mined) tr tcb = Inr (lockbox_sim tr tcb)"
  "now_ms (sim_ethers mined) tr = 1700000000999"
  "attest (sim_ethers mined) tr q r g = Inr \<lparr>tx_hash = ''0x01''\<rparr>"
  "createKey (sim_ethers mined) tr tcb rnd g = Inr \<lparr>tx_hash = ''0x02''\<rparr>"
  "randomBytes (sim_ethers mined) tr m = replicate m 7"
  "mockQuote (sim_ethers mined) reg = []"
  "localWallet_address \<lparr>localWallet_address = a\<rparr> = a"
  by (simp_all add: sim_ethers_def sim_def mockQuote_def)

lemma sim_ethers_confirmed:
  "blockNumber rcpt = advancing tr \<Longrightarrow>
   waitForConfirmation (sim_ethers mined) rcpt tr =
     Some (Inr (), tr @ [GetBlock Latest, Sleep 3000, GetBlock Latest])"
  by (rule wait_two_reads[where ?b0.0 = "\<lparr>number = advancing tr, hash = ''0xaa''\<rparr>"
        and ?b1.0 = "\<lparr>number = advancing tr + 1, hash = ''0xaa''\<rparr>"])
     (simp_all add: sim_ethers_simps advancing_append)

lemma sim_ethers_attest_run:
  assumes "mined \<lparr>tx_hash = ''0x01''\<rparr> = included (Some 1) [''0x07'']"
  shows "sendAttestation (sim_ethers mined) q reg tr =
     Some (Inr ''0x07'', tr @ [Attest q reg 10000000, WaitTx \<lparr>tx_hash = ''0x01''\<rparr>,
                              GetBlock Latest, Sleep 3000, GetBlock Latest])"
proof -
  let ?env = "sim_ethers mined"
  let ?rcpt = "included (Some 1) [''0x07''] (tr @ [Attest q reg 10000000])"
  have a: "attest ?env tr q reg 10000000 = Inr \<lparr>tx_hash = ''0x01''\<rparr>"
    by (simp add: sim_ethers_simps)
  have w: "wait ?env (tr @ [Attest q reg 10000000]) \<lparr>tx_hash = ''0x01''\<rparr> = Inr ?rcpt"
    by (simp add: sim_ethers_simps assms wait_outcome_def included_def)
  have c: "waitForConfirmation ?env ?rcpt (tr @ [Attest q reg 10000000, WaitTx \<lparr>tx_hash = ''0x01''\<rparr>])
      = Some (Inr (), (tr @ [Attest q reg 10000000, WaitTx \<lparr>tx_hash = ''0x01''\<rparr>]) @
                      [GetBlock Latest, Sleep 3000, GetBlock Latest])"
    by (rule sim_ethers_confirmed) (simp add: included_def advancing_def)
  have s: "scan_events (case events ?rcpt of None \<Rightarrow> [] | Some es \<Rightarrow> es) [] = Inr ''0x07''"
    by (simp add: included_def)
  have st: "status ?rcpt = Some 1" by (simp add: included_def)
  show ?thesis
    by (simp add: sendAttestation_unfold[OF a w] s st await_def c ret_def)
qed

text \<open>
  Claim C2: an attest or create-key transaction that did not succeed aborts the key
  derivation with an error. The module awaits \<open>tx.wait()\<close> of ethers v5, which rejects
  when the receipt of the transaction has status 0, so that the failure of either
  transaction reaches the module as a rejection of \<open>wait\<close>; a receipt that \<open>wait\<close>
  resolves is checked once more by sendAttestation, which fails with "attestation tx
  failed" unless its status is 1. In each case the function fails right after
  \<open>tx.wait()\<close>: sendAttestation awaits no confirmation and returns no id,
  getOrCreateKey awaits no confirmation and does not read the key again; and the
  derivation fails with the same error at the same history.
\<close>

theorem failed_transaction_aborts_derivation:
  assumes cur: "getBlock env (tr @ [Now]) Latest = Inr currentBlock"
      and prev: "getBlock env (tr @ [Now, GetBlock Latest]) (Number (number currentBlock - 1))
                   = Inr prevBlock"
      and r: "r = registration_at env this tr prevBlock"
      and q: "q = mockQuote env r"
      and t3: "t3 = tr @ [Now, GetBlock Latest, GetBlock (Number (number currentBlock - 1))]"
  shows
    "(\<forall>tx e. attest env t3 q r 10000000 = Inr tx \<and>
        wait env (t3 @ [Attest q r 10000000]) tx = Inl e \<longrightarrow>
        sendAttestation env q r t3 = Some (Inl e, t3 @ [Attest q r 10000000, WaitTx tx]) \<and>
        fetchKeySapphire_body env this tr =
          Some (Inl e, t3 @ [Attest q r 10000000, WaitTx tx])) \<and>
     (\<forall>tx rcpt. attest env t3 q r 10000000 = Inr tx \<and>
        wait env (t3 @ [Attest q r 10000000]) tx = Inr rcpt \<and> status rcpt \<noteq> Some 1 \<longrightarrow>
        sendAttestation env q r t3 =
          Some (Inl AttestationTxFailed, t3 @ [Attest q r 10000000, WaitTx tx]) \<and>
        fetchKeySapphire_body env this tr =
          Some (Inl AttestationTxFailed, t3 @ [Attest q r 10000000, WaitTx tx])) \<and>
     (\<forall>tcb t4 key tx e. sendAttestation env q r t3 = Some (Inr tcb, t4) \<and>
        getKey env t4 tcb = Inr key \<and> all_zero key \<and>
        createKey env (t4 @ [GetKey tcb, RandomBytes 32]) tcb
          (randomBytes env (t4 @ [GetKey tcb]) 32) 10000000 = Inr tx \<and>
        wait env (t4 @ [GetKey tcb, RandomBytes 32,
          CreateKey tcb (randomBytes env (t4 @ [GetKey tcb]) 32) 10000000]) tx = Inl e \<longrightarrow>
        getOrCreateKey env tcb t4 =
          Some (Inl e, t4 @ [GetKey tcb, RandomBytes 32,
            CreateKey tcb (randomBytes env (t4 @ [GetKey tcb]) 32) 10000000, WaitTx tx]) \<and>
        fetchKeySapphire_body env this tr =
          Some (Inl e, t4 @ [GetKey tcb, RandomBytes 32,
            CreateKey tcb (randomBytes env (t4 @ [GetKey tcb]) 32) 10000000, WaitTx tx]))"
proof -
  have body: "fetchKeySapphire_body env this tr =
      await (sendAttestation env q r) (getOrCreateKey env) t3"
    using fetchKey_unfold[OF cur prev] by (simp add: r q t3)
  have a: "\<And>e t'. sendAttestation env q r t3 = Some (Inl e, t') \<Longrightarrow>
      fetchKeySapphire_body env this tr = Some (Inl e, t')"
    by (simp add: body await_def)
  have b: "\<And>tcb t4. sendAttestation env q r t3 = Some (Inr tcb, t4) \<Longrightarrow>
      fetchKeySapphire_body env this tr = getOrCreateKey env tcb t4"
    by (simp add: body await_def)
  have 1: "\<forall>tx e. attest env t3 q r 10000000 = Inr tx \<and>
        wait env (t3 @ [Attest q r 10000000]) tx = Inl e \<longrightarrow>
        sendAttestation env q r t3 = Some (Inl e, t3 @ [Attest q r 10000000, WaitTx tx]) \<and>
        fetchKeySapphire_body env this tr =
          Some (Inl e, t3 @ [Attest q r 10000000, WaitTx tx])"
    using a sendAttestation_rejected by blast
  have 2: "\<forall>tx rcpt. attest env t3 q r 10000000 = Inr tx \<and>
        wait env (t3 @ [Attest q r 10000000]) tx = Inr rcpt \<and> status rcpt \<noteq> Some 1 \<longrightarrow>
        sendAttestation env q r t3 =
          Some (Inl AttestationTxFailed, t3 @ [Attest q r 10000000, WaitTx tx]) \<and>
        fetchKeySapphire_body env this tr =
          Some (Inl AttestationTxFailed, t3 @ [Attest q r 10000000, WaitTx tx])"
  proof (intro allI impI)
    fix tx rcpt
    assume h: "attest env t3 q r 10000000 = Inr tx \<and>
        wait env (t3 @ [Attest q r 10000000]) tx = Inr rcpt \<and> status rcpt \<noteq> Some 1"
    then have s: "sendAttestation env q r t3 =
          Some (Inl AttestationTxFailed, t3 @ [Attest q r 10000000, WaitTx tx])"
      using sendAttestation_unfold[of env t3 q r tx rcpt] by simp
    from s a[OF s] show "sendAttestation env q r t3 =
          Some (Inl AttestationTxFailed, t3 @ [Attest q r 10000000, WaitTx tx]) \<and>
        fetchKeySapphire_body env this tr =
          Some (Inl AttestationTxFailed, t3 @ [Attest q r 10000000, WaitTx tx])"
      by simp
  qed
  have 3: "\<forall>tcb t4 key tx e. sendAttestation env q r t3 = Some (Inr tcb, t4) \<and>
        getKey env t4 tcb = Inr key \<and> all_zero key \<and>
        createKey env (t4 @ [GetKey tcb, RandomBytes 32]) tcb
          (randomBytes env (t4 @ [GetKey tcb]) 32) 10000000 = Inr tx \<and>
        wait env (t4 @ [GetKey tcb, RandomBytes 32,
          CreateKey tcb (randomBytes env (t4 @ [GetKey tcb]) 32) 10000000]) tx = Inl e \<longrightarrow>
        getOrCreateKey env tcb t4 =
          Some (Inl e, t4 @ [GetKey tcb, RandomBytes 32,
            CreateKey tcb (randomBytes env (t4 @ [GetKey tcb]) 32) 10000000, WaitTx tx]) \<and>
        fetchKeySapphire_body env this tr =
          Some (Inl e, t4 @ [GetKey tcb, RandomBytes 32,
            CreateKey tcb (randomBytes env (t4 @ [GetKey tcb]) 32) 10000000, WaitTx tx])"
  proof (intro allI impI)
    fix tcb t4 key tx e
    assume h: "sendAttestation env q r t3 = Some (Inr tcb, t4) \<and>
        getKey env t4 tcb = Inr key \<and> all_zero key \<and>
        createKey env (t4 @ [GetKey tcb, RandomBytes 32]) tcb
          (randomBytes env (t4 @ [GetKey tcb]) 32) 10000000 = Inr tx \<and>
        wait env (t4 @ [GetKey tcb, RandomBytes 32,
          CreateKey tcb (randomBytes env (t4 @ [GetKey tcb]) 32) 10000000]) tx = Inl e"
    then have g: "getOrCreateKey env tcb t4 =
          Some (Inl e, t4 @ [GetKey tcb, RandomBytes 32,
            CreateKey tcb (randomBytes env (t4 @ [GetKey tcb]) 32) 10000000, WaitTx tx])"
      using getOrCreateKey_rejected[of env t4 tcb key tx e] by simp
    from h have "fetchKeySapphire_body env this tr = getOrCreateKey env tcb t4"
      using b by simp
    with g show "getOrCreateKey env tcb t4 =
          Some (Inl e, t4 @ [GetKey tcb, RandomBytes 32,
            CreateKey tcb (randomBytes env (t4 @ [GetKey tcb]) 32) 10000000, WaitTx tx]) \<and>
        fetchKeySapphire_body env this tr =
          Some (Inl e, t4 @ [GetKey tcb, RandomBytes 32,
            CreateKey tcb (randomBytes env (t4 @ [GetKey tcb]) 32) 10000000, WaitTx tx])"
      by simp
  qed
  from 1 2 3 show ?thesis by (intro conjI)
qed

text \<open>
  Witness for C2: three runs of the derivation against collaborators whose \<open>wait\<close>
  follows ethers v5. In the first the attest transaction is mined with status 0 and
  \<open>wait\<close> rejects; in the second its receipt carries no status and sendAttestation
  rejects it; in the third the attestation succeeds and the create-key transaction is
  mined with status 0. Each run fails right after the \<open>tx.wait()\<close> concerned.
\<close>

theorem failed_transaction_aborts_derivation_witness:
  "wait (sim_ethers (\<lambda>tx. included (Some 0) []))
     [Now, GetBlock Latest, GetBlock (Number 99), Attest [] reg0 10000000] \<lparr>tx_hash = ''0x01''\<rparr>
     = Inl (External ''transaction failed'') \<and>
   fetchKeySapphire_body (sim_ethers (\<lambda>tx. included (Some 0) []))
     \<lparr>localWallet_address = ''0x10ca1''\<rparr> [] =
     Some (Inl (External ''transaction failed''),
       [Now, GetBlock Latest, GetBlock (Number 99), Attest [] reg0 10000000,
        WaitTx \<lparr>tx_hash = ''0x01''\<rparr>]) \<and>
   wait (sim_ethers (\<lambda>tx. included None [''0x07'']))
     [Now, GetBlock Latest, GetBlock (Number 99), Attest [] reg0 10000000] \<lparr>tx_hash = ''0x01''\<rparr>
     = Inr \<lparr>status = None,
            events = Some [\<lparr>event = Some ''Attested'', args = Some \<lparr>tcbId = ''0x07''\<rparr>\<rparr>],
            blockNumber = 100\<rparr> \<and>
   fetchKeySapphire_body (sim_ethers (\<lambda>tx. included None [''0x07'']))
     \<lparr>localWallet_address = ''0x10ca1''\<rparr> [] =
     Some (Inl AttestationTxFailed,
       [Now, GetBlock Latest, GetBlock (Number 99), Attest [] reg0 10000000,
        WaitTx \<lparr>tx_hash = ''0x01''\<rparr>]) \<and>
   wait (sim_ethers create_fails)
     [Now, GetBlock Latest, GetBlock (Number 99), Attest [] reg0 10000000,
      WaitTx \<lparr>tx_hash = ''0x01''\<rparr>, GetBlock Latest, Sleep 3000, GetBlock Latest,
      GetKey ''0x07'', RandomBytes 32, CreateKey ''0x07'' (replicate 32 7) 10000000]
     \<lparr>tx_hash = ''0x02''\<rparr>
     = Inl (External ''transaction failed'') \<and>
   fetchKeySapphire_body (sim_ethers create_fails) \<lparr>localWallet_address = ''0x10ca1''\<rparr> [] =
     Some (Inl (External ''transaction failed''),
       [Now, GetBlock Latest, GetBlock (Number 99), Attest [] reg0 10000000,
        WaitTx \<lparr>tx_hash = ''0x01''\<rparr>, GetBlock Latest, Sleep 3000, GetBlock Latest,
        GetKey ''0x07'', RandomBytes 32, CreateKey ''0x07'' (replicate 32 7) 10000000,
        WaitTx \<lparr>tx_hash = ''0x02''\<rparr>])"
proof -
  let ?esm = "\<lparr>localWallet_address = ''0x10ca1''\<rparr>"
  let ?cur = "\<lparr>number = 100, hash = ''0xaa''\<rparr>"
  let ?prev = "\<lparr>number = 99, hash = ''0xbb''\<rparr>"
  let ?t3 = "[] @ [Now, GetBlock Latest, GetBlock (Number (number ?cur - 1))]"
  let ?tx1 = "\<lparr>tx_hash = ''0x01''\<rparr>"
  let ?tx2 = "\<lparr>tx_hash = ''0x02''\<rparr>"
  have cur: "getBlock (sim_ethers mined) ([] @ [Now]) Latest = Inr ?cur" for mined
    by (simp add: sim_ethers_simps advancing_def)
  have prev: "getBlock (sim_ethers mined) ([] @ [Now, GetBlock Latest]) (Number (number ?cur - 1))
      = Inr ?prev" for mined
    by (simp add: sim_ethers_simps)
  have reg: "registration_at (sim_ethers mined) ?esm [] ?prev = reg0" for mined
    by (simp add: registration_at_def reg0_def sim_ethers_simps)
  have quote: "mockQuote (sim_ethers mined) reg0 = []" for mined
    by (simp add: sim_ethers_simps)
  note inst = failed_transaction_aborts_derivation[OF cur prev reg[symmetric] quote[symmetric] refl]

  let ?env1 = "sim_ethers (\<lambda>tx. included (Some 0) [])"
  have w1: "wait ?env1 (?t3 @ [Attest [] reg0 10000000]) ?tx1 = Inl (External ''transaction failed'')"
    by (simp add: sim_ethers_simps wait_outcome_def included_def)
  have h1: "attest ?env1 ?t3 [] reg0 10000000 = Inr ?tx1 \<and>
      wait ?env1 (?t3 @ [Attest [] reg0 10000000]) ?tx1 = Inl (External ''transaction failed'')"
    using w1 by (simp add: sim_ethers_simps)
  from inst[of "\<lambda>tx. included (Some 0) []", THEN conjunct1, THEN spec, THEN spec, THEN mp, OF h1]
  have run1: "fetchKeySapphire_body ?env1 ?esm [] =
      Some (Inl (External ''transaction failed''), ?t3 @ [Attest [] reg0 10000000, WaitTx ?tx1])"
    by simp

  let ?env2 = "sim_ethers (\<lambda>tx. included None [''0x07''])"
  let ?rcpt2 = "\<lparr>status = None,
            events = Some [\<lparr>event = Some ''Attested'', args = Some \<lparr>tcbId = ''0x07''\<rparr>\<rparr>],
            blockNumber = 100\<rparr>"
  have w2: "wait ?env2 (?t3 @ [Attest [] reg0 10000000]) ?tx1 = Inr ?rcpt2"
    by (simp add: sim_ethers_simps wait_outcome_def included_def advancing_def)
  have h2: "attest ?env2 ?t3 [] reg0 10000000 = Inr ?tx1 \<and>
      wait ?env2 (?t3 @ [Attest [] reg0 10000000]) ?tx1 = Inr ?rcpt2 \<and>
      status ?rcpt2 \<noteq> Some 1"
    using w2 by (simp add: sim_ethers_simps)
  from inst[of "\<lambda>tx. included None [''0x07'']", THEN conjunct2, THEN conjunct1,
           THEN spec, THEN spec, THEN mp, OF h2]
  have run2: "fetchKeySapphire_body ?env2 ?esm [] =
      Some (Inl AttestationTxFailed, ?t3 @ [Attest [] reg0 10000000, WaitTx ?tx1])"
    by simp

  let ?env3 = "sim_ethers create_fails"
  let ?t4 = "?t3 @ [Attest [] reg0 10000000, WaitTx ?tx1, GetBlock Latest, Sleep 3000, GetBlock Latest]"
  have s3: "sendAttestation ?env3 [] reg0 ?t3 = Some (Inr ''0x07'', ?t4)"
    by (simp add: sim_ethers_attest_run create_fails_def)
  have w4: "wait ?env3 (?t4 @ [GetKey ''0x07'', RandomBytes 32,
        CreateKey ''0x07'' (randomBytes ?env3 (?t4 @ [GetKey ''0x07'']) 32) 10000000]) ?tx2
      = Inl (External ''transaction failed'')"
    by (simp add: sim_ethers_simps wait_outcome_def create_fails_def included_def)
  have h3: "sendAttestation ?env3 [] reg0 ?t3 = Some (Inr ''0x07'', ?t4) \<and>
      getKey ?env3 ?t4 ''0x07'' = Inr zero32 \<and> all_zero zero32 \<and>
      createKey ?env3 (?t4 @ [GetKey ''0x07'', RandomBytes 32]) ''0x07''
        (randomBytes ?env3 (?t4 @ [GetKey ''0x07'']) 32) 10000000 = Inr ?tx2 \<and>
      wait ?env3 (?t4 @ [GetKey ''0x07'', RandomBytes 32,
        CreateKey ''0x07'' (randomBytes ?env3 (?t4 @ [GetKey ''0x07'']) 32) 10000000]) ?tx2
      = Inl (External ''transaction failed'')"
    using s3 w4 by (simp add: sim_ethers_simps lockbox_sim_def all_zero_zero32)
  from inst[of create_fails, THEN conjunct2, THEN conjunct2,
           THEN spec, THEN spec, THEN spec, THEN spec, THEN spec, THEN mp, OF h3]
  have run3: "fetchKeySapphire_body ?env3 ?esm [] =
      Some (Inl (External ''transaction failed''),
        ?t4 @ [GetKey ''0x07'', RandomBytes 32, CreateKey ''0x07'' (replicate 32 7) 10000000,
               WaitTx ?tx2])"
    by (simp add: sim_ethers_simps)
  from w1 run1 w2 run2 w4 run3 show ?thesis
    by (simp add: sim_ethers_simps)
qed

subsection \<open>The cipher service\<close>

lemma memoizeAsync_hit:
  "lookup k (fst s) = Some r \<Longrightarrow> memoizeAsync lookup store fn k s = Some (r, s)"
  by (simp add: memoizeAsync_def)

lemma getCipher_hit:
  "getCipher_memo m k = Some r \<Longrightarrow> getCipher env this k (m, tr) = Some (r, (m, tr))"
  by (simp add: getCipher_def memoizeAsync_hit)

lemma fetchKeySapphire_memo:
  "fetchKeySapphire env this (m, tr) = Some (r, (m', tr')) \<Longrightarrow>
     getCipher_memo m' = getCipher_memo m \<and> fetchKey_memo m' \<noteq> None"
  by (auto simp: fetchKeySapphire_def memoizeAsync_def on_trace_def
           split: option.splits prod.splits)

lemma getCipher_body_cases:
  "getCipher_body env this k (m, tr) = Some (r, (m', tr')) \<Longrightarrow>
     getCipher_memo m' = getCipher_memo m \<and>
     (k = 0 \<longrightarrow> r = AEAD env (replicate (KeySize env) 42) \<and> tr' = tr) \<and>
     (k \<noteq> 0 \<and> k \<noteq> 1 \<longrightarrow> r = Inl (UnknownKey k) \<and> tr' = tr)"
proof (cases "k = 1")
  case True
  assume run: "getCipher_body env this k (m, tr) = Some (r, (m', tr'))"
  with True obtain r1 m1 tr1 where f: "fetchKeySapphire env this (m, tr) = Some (r1, (m1, tr1))"
    and m: "m' = m1"
    by (auto simp: getCipher_body_def await_def lift_def split: option.splits sum.splits prod.splits)
  from fetchKeySapphire_memo[OF f] m True show ?thesis by simp
next
  case False
  assume "getCipher_body env this k (m, tr) = Some (r, (m', tr'))"
  with False show ?thesis
    by (auto simp: getCipher_body_def lift_def throw_def split: if_splits)
qed

lemma getCipher_cases:
  assumes "getCipher env this k (m, tr) = Some (r, (m', tr'))"
  shows "getCipher_memo m' k = Some r \<and>
         (\<forall>j. j \<noteq> k \<longrightarrow> getCipher_memo m' j = getCipher_memo m j) \<and>
         (\<forall>r0. getCipher_memo m k = Some r0 \<longrightarrow> r = r0 \<and> m' = m \<and> tr' = tr) \<and>
         (getCipher_memo m k = None \<and> k = 0 \<longrightarrow> r = AEAD env (replicate (KeySize env) 42) \<and> tr' = tr) \<and>
         (getCipher_memo m k = None \<and> k \<noteq> 0 \<and> k \<noteq> 1 \<longrightarrow> r = Inl (UnknownKey k) \<and> tr' = tr)"
proof (cases "getCipher_memo m k")
  case (Some r0)
  with assms show ?thesis by (simp add: getCipher_hit)
next
  case None
  with assms obtain m1 where b: "getCipher_body env this k (m, tr) = Some (r, (m1, tr'))"
    and m': "m' = m1\<lparr>getCipher_memo := (getCipher_memo m1)(k \<mapsto> r)\<rparr>"
    by (auto simp: getCipher_def memoizeAsync_def split: option.splits prod.splits)
  from getCipher_body_cases[OF b] m' None show ?thesis by simp
qed

lemma getCipher_memo_ok:
  assumes "getCipher env this k (m, tr) = Some (r, (m', tr'))" "memo_ok env m"
  shows "memo_ok env m'"
  unfolding memo_ok_def
proof (intro conjI allI impI)
  fix r0 assume a: "getCipher_memo m' 0 = Some r0"
  show "r0 = AEAD env (replicate (KeySize env) 42)"
  proof (cases "k = 0")
    case True
    with getCipher_cases[OF assms(1)] a assms(2) show ?thesis
      by (cases "getCipher_memo m 0") (auto simp: memo_ok_def)
  next
    case False
    with getCipher_cases[OF assms(1)] a assms(2) show ?thesis
      by (auto simp: memo_ok_def)
  qed
next
  fix j r0 assume a: "j \<noteq> 0 \<and> j \<noteq> 1 \<and> getCipher_memo m' j = Some r0"
  show "r0 = Inl (UnknownKey j)"
  proof (cases "k = j")
    case True
    with getCipher_cases[OF assms(1)] a assms(2) show ?thesis
      by (cases "getCipher_memo m j") (auto simp: memo_ok_def)
  next
    case False
    with getCipher_cases[OF assms(1)] a assms(2) show ?thesis
      by (auto simp: memo_ok_def)
  qed
qed

lemma decrypt_unfold:
  "decrypt env this b s =
     (case getCipher env this (keyId b) s of
        None \<Rightarrow> None
      | Some (Inl e, s') \<Rightarrow> Some (Inl e, s')
      | Some (Inr c, s') \<Rightarrow> Some (open_box env c b, s'))"
  by (simp add: decrypt_def await_def lift_def open_box_def
           split: option.splits sum.splits prod.splits)

lemma encrypt_unfold:
  "encrypt env this p s =
     (case getCipher env this 1 s of
        None \<Rightarrow> None
      | Some (Inl e, s') \<Rightarrow> Some (Inl e, s')
      | Some (Inr c, (m', tr')) \<Rightarrow>
          Some (case aead_encrypt env c (randomBytes env tr' (NonceSize env)) p of
                  Inl e \<Rightarrow> Inl e
                | Inr ct \<Rightarrow> Inr \<lparr>keyId = 1, nonce = encode (randomBytes env tr' (NonceSize env)),
                                data = encode ct\<rparr>,
                (m', tr' @ [RandomBytes (NonceSize env)])))"
  by (simp add: encrypt_def LATEST_KEY_ID_def await_def lift_def ret_def on_trace_def request_def
           split: option.splits sum.splits prod.splits)

lemma getCipher_returns:
  assumes "k \<noteq> 1"
  shows "\<exists>r m'. getCipher env this k (m, tr) = Some (r, (m', tr))"
proof (cases "getCipher_memo m k")
  case (Some r0)
  then show ?thesis by (simp add: getCipher_hit)
next
  case None
  with assms show ?thesis
    by (simp add: getCipher_def memoizeAsync_def getCipher_body_def lift_def throw_def)
qed

lemma runs_memo_ok:
  "runs env this s s' \<Longrightarrow> memo_ok env (fst s) \<Longrightarrow> memo_ok env (fst s')"
proof (induction rule: runs.induct)
  case (idle s)
  then show ?case by simp
next
  case (encrypts s s' p r s'')
  obtain m tr where s': "s' = (m, tr)" by (cases s')
  obtain m'' tr'' where s'': "s'' = (m'', tr'')" by (cases s'')
  from encrypts.hyps(2) s' s'' obtain rc tr1 where
    "getCipher env this 1 (m, tr) = Some (rc, (m'', tr1))"
    by (auto simp: encrypt_unfold split: option.splits sum.splits prod.splits)
  from getCipher_memo_ok[OF this] encrypts s' s'' show ?case by simp
next
  case (decrypts s s' b r s'')
  obtain m tr where s': "s' = (m, tr)" by (cases s')
  obtain m'' tr'' where s'': "s'' = (m'', tr'')" by (cases s'')
  from decrypts.hyps(2) s' s'' obtain rc tr1 where
    "getCipher env this (keyId b) (m, tr) = Some (rc, (m'', tr1))"
    by (auto simp: decrypt_unfold split: option.splits sum.splits prod.splits)
  from getCipher_memo_ok[OF this] decrypts s' s'' show ?case by simp
qed

lemma memo_ok_fresh: "memo_ok env fresh"
  by (simp add: memo_ok_def fresh_def)

lemma runs_keeps:
  "runs env this s s' \<Longrightarrow> getCipher_memo (fst s) k = Some r \<Longrightarrow>
     getCipher_memo (fst s') k = Some r"
proof (induction rule: runs.induct)
  case (idle s)
  then show ?case by simp
next
  case (encrypts s s' p r0 s'')
  obtain m tr where s': "s' = (m, tr)" by (cases s')
  obtain m'' tr'' where s'': "s'' = (m'', tr'')" by (cases s'')
  from encrypts.hyps(2) s' s'' obtain rc tr1 where
    g: "getCipher env this 1 (m, tr) = Some (rc, (m'', tr1))"
    by (auto simp: encrypt_unfold split: option.splits sum.splits prod.splits)
  from encrypts s' have "getCipher_memo m k = Some r" by simp
  with getCipher_cases[OF g] s'' show ?case
    by (cases "k = 1") auto
next
  case (decrypts s s' b r0 s'')
  obtain m tr where s': "s' = (m, tr)" by (cases s')
  obtain m'' tr'' where s'': "s'' = (m'', tr'')" by (cases s'')
  from decrypts.hyps(2) s' s'' obtain rc tr1 where
    g: "getCipher env this (keyId b) (m, tr) = Some (rc, (m'', tr1))"
    by (auto simp: decrypt_unfold split: option.splits sum.splits prod.splits)
  from decrypts s' have "getCipher_memo m k = Some r" by simp
  with getCipher_cases[OF g] s'' show ?case
    by (cases "k = keyId b") auto
qed

lemma sim_getCipher_run:
  "getCipher (sim advancing (included (Some 1) [''0x07'']) lockbox_sim)
     \<lparr>localWallet_address = ''0x10ca1''\<rparr> 1 (fresh, []) =
   Some (Inr (concat (replicate 16 [42, 43])), (memo1, trace1))"
  by (simp add: getCipher_def memoizeAsync_def getCipher_body_def fetchKeySapphire_def
        on_trace_def await_def lift_def fresh_def sim_fetch_run sim_aead memo1_def trace1_def
        reg0_def)

text \<open>
  Claim C7: in every state of a process, \<open>decrypt\<close> of a box whose key id is neither 0
  nor 1 fails with the unknown-key error, and the history after the call is the history
  before it: the call has no effect at all, so no network call either.
\<close>

theorem decrypt_unknown_key:
  assumes "runs env this (fresh, []) s" and "keyId b \<noteq> 0" and "keyId b \<noteq> 1"
  shows "\<exists>m'. decrypt env this b s = Some (Inl (UnknownKey (keyId b)), (m', snd s))"
proof -
  obtain m tr where s: "s = (m, tr)" by (cases s)
  from runs_memo_ok[OF assms(1)] s have ok: "memo_ok env m"
    by (simp add: memo_ok_fresh)
  from getCipher_returns[OF assms(3)] obtain r m' where
    g: "getCipher env this (keyId b) (m, tr) = Some (r, (m', tr))"
    by blast
  have "r = Inl (UnknownKey (keyId b))"
  proof (cases "getCipher_memo m (keyId b)")
    case None
    with getCipher_cases[OF g] assms(2,3) show ?thesis by simp
  next
    case (Some r0)
    with getCipher_cases[OF g] have "r = r0" by simp
    with Some ok assms(2,3) show ?thesis by (auto simp: memo_ok_def)
  qed
  with g s show ?thesis by (simp add: decrypt_unfold)
qed

text \<open>Witness for C7: a box with key id 2, in a process that has just started.\<close>

theorem decrypt_unknown_key_witness:
  "runs (sim advancing (included (Some 1) [''0x07'']) lockbox_sim) \<lparr>localWallet_address = ''0x10ca1''\<rparr>
     (fresh, []) (fresh, []) \<and>
   (\<exists>m'. decrypt (sim advancing (included (Some 1) [''0x07'']) lockbox_sim)
       \<lparr>localWallet_address = ''0x10ca1''\<rparr> \<lparr>keyId = 2, nonce = ''00'', data = ''00''\<rparr> (fresh, [])
     = Some (Inl (UnknownKey 2), (m', [])))"
  using decrypt_unknown_key[OF runs.idle, of "\<lparr>keyId = 2, nonce = ''00'', data = ''00''\<rparr>"
      "sim advancing (included (Some 1) [''0x07'']) lockbox_sim" "\<lparr>localWallet_address = ''0x10ca1''\<rparr>"]
  by (simp add: runs.idle)

text \<open>
  Claim C9: in every state of a process, the cipher for key id 0 is the one built from
  the key of \<open>KeySize\<close> bytes all equal to 42, and resolving it has no effect; so
  \<open>decrypt\<close> of a box with key id 0 opens the box under that cipher and leaves the
  history as it was. No call of \<open>encrypt\<close> uses key id 0: every box it returns carries
  \<open>LATEST_KEY_ID\<close>, which is 1.
\<close>

theorem decrypt_test_key:
  assumes "runs env this (fresh, []) s"
  shows "(\<exists>m'. getCipher env this 0 s = Some (AEAD env (replicate (KeySize env) 42), (m', snd s))) \<and>
         (\<forall>b. keyId b = 0 \<longrightarrow>
            (\<exists>m'. decrypt env this b s =
               Some (case AEAD env (replicate (KeySize env) 42) of
                       Inl e \<Rightarrow> Inl e
                     | Inr cipher \<Rightarrow> open_box env cipher b,
                     (m', snd s)))) \<and>
         (\<forall>p b s'. encrypt env this p s = Some (Inr b, s') \<longrightarrow> keyId b = LATEST_KEY_ID \<and> keyId b \<noteq> 0)"
proof -
  obtain m tr where s: "s = (m, tr)" by (cases s)
  from runs_memo_ok[OF assms(1)] s have ok: "memo_ok env m"
    by (simp add: memo_ok_fresh)
  have "(0::int) \<noteq> 1" by simp
  from getCipher_returns[OF this] obtain r m' where
    g: "getCipher env this 0 (m, tr) = Some (r, (m', tr))"
    by blast
  have r: "r = AEAD env (replicate (KeySize env) 42)"
  proof (cases "getCipher_memo m 0")
    case None
    with getCipher_cases[OF g] show ?thesis by simp
  next
    case (Some r0)
    with getCipher_cases[OF g] have "r = r0" by simp
    with Some ok show ?thesis by (auto simp: memo_ok_def)
  qed
  have 1: "\<exists>m'. getCipher env this 0 s = Some (AEAD env (replicate (KeySize env) 42), (m', snd s))"
    using g r s by simp
  have 2: "\<forall>b. keyId b = 0 \<longrightarrow>
            (\<exists>m'. decrypt env this b s =
               Some (case AEAD env (replicate (KeySize env) 42) of
                       Inl e \<Rightarrow> Inl e
                     | Inr cipher \<Rightarrow> open_box env cipher b,
                     (m', snd s)))"
    using g r s by (auto simp: decrypt_unfold split: sum.splits)
  have 3: "\<forall>p b s'. encrypt env this p s = Some (Inr b, s') \<longrightarrow> keyId b = LATEST_KEY_ID \<and> keyId b \<noteq> 0"
    by (auto simp: encrypt_unfold LATEST_KEY_ID_def split: option.splits sum.splits prod.splits)
  from 1 2 3 show ?thesis by blast
qed

text \<open>
  Witness for C9: a box under the test key that holds the plaintext 1, 2, opened in a
  process that has just started.
\<close>

theorem decrypt_test_key_witness:
  "runs (sim advancing (included (Some 1) [''0x07'']) lockbox_sim) \<lparr>localWallet_address = ''0x10ca1''\<rparr>
     (fresh, []) (fresh, []) \<and> keyId box0 = 0 \<and>
   (\<exists>m'. decrypt (sim advancing (included (Some 1) [''0x07'']) lockbox_sim)
       \<lparr>localWallet_address = ''0x10ca1''\<rparr> box0 (fresh, [])
     = Some (Inr [1, 2], (m', [])))"
proof -
  let ?env = "sim advancing (included (Some 1) [''0x07'']) lockbox_sim"
  let ?esm = "\<lparr>localWallet_address = ''0x10ca1''\<rparr>"
  have r: "runs ?env ?esm (fresh, []) (fresh, [])" by (rule runs.idle)
  have k: "keyId box0 = 0" by (simp add: box0_def)
  from decrypt_test_key[OF r, THEN conjunct2, THEN conjunct1, THEN spec, THEN mp, OF k]
  have "\<exists>m'. decrypt ?env ?esm box0 (fresh, []) = Some (Inr [1, 2], (m', []))"
    by (simp add: sim_aead open_box0)
  with r k show ?thesis by blast
qed

text \<open>
  Claim C1: with a cipher that decrypts what it encrypted, the box that \<open>encrypt\<close>
  returns for a plaintext is decrypted, in the state after that call and in every later
  state of the same process, to exactly that plaintext; the decryption resolves the key
  from the memo table and changes nothing.
\<close>

theorem decrypt_encrypt_round_trip:
  assumes aead: "\<forall>c n p ct. aead_encrypt env c n p = Inr ct \<longrightarrow> aead_decrypt env c n ct = Inr p"
      and enc: "encrypt env this p s = Some (Inr b, s1)"
      and later: "runs env this s1 s2"
  shows "decrypt env this b s2 = Some (Inr p, s2)"
proof -
  obtain m tr where s: "s = (m, tr)" by (cases s)
  obtain m1 tr1 where s1: "s1 = (m1, tr1)" by (cases s1)
  obtain m2 tr2 where s2: "s2 = (m2, tr2)" by (cases s2)
  from enc s s1 obtain c tr0 ct where
    g: "getCipher env this 1 (m, tr) = Some (Inr c, (m1, tr0))"
    and ct: "aead_encrypt env c (randomBytes env tr0 (NonceSize env)) p = Inr ct"
    and b: "b = \<lparr>keyId = 1, nonce = encode (randomBytes env tr0 (NonceSize env)), data = encode ct\<rparr>"
    by (auto simp: encrypt_unfold split: option.splits sum.splits prod.splits)
  from getCipher_cases[OF g] have "getCipher_memo m1 1 = Some (Inr c)" by simp
  with runs_keeps[OF later] s1 s2 have "getCipher_memo m2 1 = Some (Inr c)" by simp
  then have "getCipher env this 1 (m2, tr2) = Some (Inr c, (m2, tr2))"
    by (rule getCipher_hit)
  moreover have "open_box env c b = Inr p"
    using aead ct b by (simp add: open_box_def decode_encode)
  ultimately show ?thesis using b s2 by (simp add: decrypt_unfold)
qed

text \<open>
  Witness for C1: the first \<open>encrypt\<close> of a process against the simulated
  collaborators derives the key, and the box it returns for 1, 2, 3 decrypts to 1, 2, 3.
\<close>

theorem decrypt_encrypt_round_trip_witness:
  "encrypt (sim advancing (included (Some 1) [''0x07'']) lockbox_sim)
       \<lparr>localWallet_address = ''0x10ca1''\<rparr> [1, 2, 3] (fresh, []) =
     Some (Inr \<lparr>keyId = 1, nonce = encode (replicate 15 7),
                 data = encode (replicate 15 7 @ concat (replicate 16 [42, 43]) @ [1, 2, 3])\<rparr>,
           (memo1, trace1 @ [RandomBytes 15])) \<and>
   decrypt (sim advancing (included (Some 1) [''0x07'']) lockbox_sim)
       \<lparr>localWallet_address = ''0x10ca1''\<rparr>
       \<lparr>keyId = 1, nonce = encode (replicate 15 7),
        data = encode (replicate 15 7 @ concat (replicate 16 [42, 43]) @ [1, 2, 3])\<rparr>
       (memo1, trace1 @ [RandomBytes 15]) =
     Some (Inr [1, 2, 3], (memo1, trace1 @ [RandomBytes 15]))"
proof -
  let ?env = "sim advancing (included (Some 1) [''0x07'']) lockbox_sim"
  let ?esm = "\<lparr>localWallet_address = ''0x10ca1''\<rparr>"
  let ?box = "\<lparr>keyId = 1, nonce = encode (replicate 15 7),
        data = encode (replicate 15 7 @ concat (replicate 16 [42, 43]) @ [1, 2, 3])\<rparr>"
  have a: "\<forall>c n p ct. aead_encrypt ?env c n p = Inr ct \<longrightarrow> aead_decrypt ?env c n ct = Inr p"
    by (simp add: sim_aead toy_round_trip)
  have e: "encrypt ?env ?esm [1, 2, 3] (fresh, []) = Some (Inr ?box, (memo1, trace1 @ [RandomBytes 15]))"
    by (simp add: encrypt_unfold sim_getCipher_run sim_aead sim_fields toy_encrypt_def)
  from decrypt_encrypt_round_trip[OF a e runs.idle] e show ?thesis by simp
qed

subsection \<open>The memoization cache under concurrent callers\<close>

lemma proc_ok_started: "proc_ok env started"
  by (simp add: proc_ok_def started_def)

lemma call_getCipher_ok:
  assumes "proc_ok env P"
  shows "proc_ok env (call_getCipher env k P)"
proof (cases "getCipher_promise P k")
  case (Some pr)
  with assms show ?thesis by (simp add: call_getCipher_def)
next
  case None
  with assms have nd: "\<forall>r. (k, r) \<notin> set (delivered P)"
    by (auto simp: proc_ok_def)
  show ?thesis
  proof (cases "k = 1")
    case True
    show ?thesis
    proof (cases "fetchKey_promise P")
      case fk: None
      with None True assms nd show ?thesis
        by (auto simp: call_getCipher_def call_fetchKeySapphire_def proc_ok_def)
    next
      case fk: (Some pr)
      with None True assms nd show ?thesis
        by (auto simp: call_getCipher_def call_fetchKeySapphire_def proc_ok_def)
    qed
  next
    case False
    with None assms nd show ?thesis
      by (auto simp: call_getCipher_def proc_ok_def)
  qed
qed

lemma perform_ok:
  assumes "perform env this a P = Some P'" "proc_ok env P"
  shows "proc_ok env P'"
proof (cases a)
  case (Call k)
  with assms call_getCipher_ok[OF assms(2), of k] show ?thesis by simp
next
  case Derive
  with assms obtain r tr' where p: "fetchKey_promise P = Some Pending"
    and run: "fetchKeySapphire_body env this (history P) = Some (r, tr')"
    and P': "P' = P\<lparr>history := tr', fetchKey_promise := Some (Settled r)\<rparr>"
    by (auto split: option.splits promise.splits prod.splits)
  from fetchKey_adds[OF run] obtain evs where
    evs: "tr' = history P @ evs" "length (filter is_Attest evs) \<le> 1"
    by blast
  from assms(2) p have "filter is_Attest (history P) = []"
    and "getCipher_promise P 1 \<noteq> Some (Settled rr)" for rr
    by (auto simp: proc_ok_def)
  with assms(2) p P' evs show ?thesis
    by (auto simp: proc_ok_def)
next
  case Resume
  with assms obtain r where p: "getCipher_promise P 1 = Some Pending"
    and f: "fetchKey_promise P = Some (Settled r)"
    and P': "P' = P\<lparr>getCipher_promise := (getCipher_promise P)(1 \<mapsto> Settled (cipher_of env r))\<rparr>"
    by (auto simp: cipher_of_def split: option.splits promise.splits prod.splits)
  from assms(2) p have "(1, rr) \<notin> set (delivered P)" for rr
    by (auto simp: proc_ok_def)
  with assms(2) p f P' show ?thesis
    by (auto simp: proc_ok_def)
next
  case (Deliver k)
  with assms obtain r where "getCipher_promise P k = Some (Settled r)"
    and "P' = P\<lparr>delivered := (k, r) # delivered P\<rparr>"
    by (auto split: option.splits promise.splits)
  with assms(2) show ?thesis by (auto simp: proc_ok_def)
next
  case Nonce
  with assms obtain c where c: "getCipher_promise P 1 = Some (Settled (Inr c))"
    and P': "P' = P\<lparr>history := history P @ [RandomBytes (NonceSize env)]\<rparr>"
    by (auto split: option.splits promise.splits sum.splits)
  with assms(2) show ?thesis by (auto simp: proc_ok_def)
qed

lemma schedule_ok:
  "schedule env this acts P = Some P' \<Longrightarrow> proc_ok env P \<Longrightarrow> proc_ok env P'"
proof (induction acts arbitrary: P)
  case Nil
  then show ?case by simp
next
  case (Cons a acts)
  then obtain P1 where 1: "perform env this a P = Some P1"
    and 2: "schedule env this acts P1 = Some P'"
    by (auto split: option.splits)
  from Cons.IH[OF 2 perform_ok[OF 1 Cons.prems(2)]] show ?case .
qed

lemma perform_settles:
  assumes "perform env this a P = Some P'"
  shows "settles P P'"
proof (cases a)
  case (Call k)
  with assms show ?thesis
    by (auto simp: settles_def call_getCipher_def call_fetchKeySapphire_def
             split: option.splits if_splits)
next
  case Derive
  with assms show ?thesis
    by (auto simp: settles_def split: option.splits promise.splits prod.splits)
next
  case Resume
  with assms show ?thesis
    by (auto simp: settles_def split: option.splits promise.splits prod.splits)
next
  case (Deliver k)
  with assms show ?thesis
    by (auto simp: settles_def split: option.splits promise.splits)
next
  case Nonce
  with assms show ?thesis
    by (auto simp: settles_def split: option.splits promise.splits sum.splits)
qed

lemma settles_trans: "settles P P' \<Longrightarrow> settles P' P'' \<Longrightarrow> settles P P''"
  by (auto simp: settles_def)

lemma schedule_settles:
  "schedule env this acts P = Some P' \<Longrightarrow> settles P P'"
proof (induction acts arbitrary: P)
  case Nil
  then show ?case by (simp add: settles_def)
next
  case (Cons a acts)
  then obtain P1 where 1: "perform env this a P = Some P1"
    and 2: "schedule env this acts P1 = Some P'"
    by (auto split: option.splits)
  from settles_trans[OF perform_settles[OF 1] Cons.IH[OF 2]] show ?case .
qed

lemma call_getCipher_promised:
  "getCipher_promise (call_getCipher env k P) k \<noteq> None"
  by (auto simp: call_getCipher_def call_fetchKeySapphire_def split: option.splits)

lemma perform_promised:
  "perform env this a P = Some P' \<Longrightarrow> getCipher_promise P k \<noteq> None \<Longrightarrow>
     getCipher_promise P' k \<noteq> None"
  by (cases a)
     (auto simp: call_getCipher_def call_fetchKeySapphire_def
           split: option.splits promise.splits prod.splits sum.splits if_splits)

lemma schedule_promised:
  "schedule env this acts P = Some P' \<Longrightarrow>
     getCipher_promise P k \<noteq> None \<or> Call k \<in> set acts \<Longrightarrow> getCipher_promise P' k \<noteq> None"
proof (induction acts arbitrary: P)
  case Nil
  then show ?case by simp
next
  case (Cons a acts)
  then obtain P1 where 1: "perform env this a P = Some P1"
    and 2: "schedule env this acts P1 = Some P'"
    by (auto split: option.splits)
  have "getCipher_promise P1 k \<noteq> None \<or> Call k \<in> set acts"
  proof (cases "a = Call k")
    case True
    with 1 show ?thesis using call_getCipher_promised[of env k P] by auto
  next
    case False
    with Cons.prems(2) perform_promised[OF 1, of k] show ?thesis by auto
  qed
  from Cons.IH[OF 2 this] show ?case .
qed

lemma sim_schedule_run:
  "schedule (sim advancing (included (Some 1) [''0x07'']) lockbox_sim)
     \<lparr>localWallet_address = ''0x10ca1''\<rparr>
     [Call 1, Call 1, Derive, Resume, Deliver 1, Nonce, Deliver 1, Call 1, Deliver 1] started
   = Some process1"
  by (simp add: started_def call_getCipher_def call_fetchKeySapphire_def sim_fetch_run
        cipher_of_def sim_aead process1_def trace1_def reg0_def)

text \<open>
  Claim C5: whatever the interleaving of the callers, the derivation is started at most
  once, and exactly once as soon as one call needs the key of id 1; the attest
  transaction is submitted at most once; two outcomes delivered for the same key id are
  equal, and those for id 1 are the cipher of the one derived key; and once the
  derivation has completed, every later state of the process holds the same outcome, no
  further derivation is started, no further attestation is submitted, and every call for
  id 1 receives the cipher of that outcome.
\<close>

theorem derivation_at_most_once:
  assumes "schedule env this acts started = Some P"
  shows "derivations P \<le> 1 \<and>
         (Call 1 \<in> set acts \<longrightarrow> derivations P = 1) \<and>
         length (filter is_Attest (history P)) \<le> derivations P \<and>
         (\<forall>k r r'. (k, r) \<in> set (delivered P) \<and> (k, r') \<in> set (delivered P) \<longrightarrow> r = r') \<and>
         (\<forall>r. (1, r) \<in> set (delivered P) \<longrightarrow>
            (\<exists>kr. fetchKey_promise P = Some (Settled kr) \<and> r = cipher_of env kr)) \<and>
         (\<forall>more P' kr. schedule env this more P = Some P' \<and>
            fetchKey_promise P = Some (Settled kr) \<longrightarrow>
            fetchKey_promise P' = Some (Settled kr) \<and> derivations P' = derivations P \<and>
            filter is_Attest (history P') = filter is_Attest (history P) \<and>
            (\<forall>r. (1, r) \<in> set (delivered P') \<longrightarrow> r = cipher_of env kr))"
proof -
  from schedule_ok[OF assms proc_ok_started] have i: "proc_ok env P" .
  have 1: "derivations P \<le> 1" using i by (auto simp: proc_ok_def split: if_splits)
  have 2: "Call 1 \<in> set acts \<longrightarrow> derivations P = 1"
  proof
    assume "Call 1 \<in> set acts"
    with schedule_promised[OF assms, of 1] have "getCipher_promise P 1 \<noteq> None" by simp
    with i show "derivations P = 1" by (auto simp: proc_ok_def)
  qed
  have 3: "length (filter is_Attest (history P)) \<le> derivations P"
    using i by (cases "fetchKey_promise P") (auto simp: proc_ok_def)
  have 4: "\<forall>k r r'. (k, r) \<in> set (delivered P) \<and> (k, r') \<in> set (delivered P) \<longrightarrow> r = r'"
  proof (intro allI impI)
    fix k r r'
    assume "(k, r) \<in> set (delivered P) \<and> (k, r') \<in> set (delivered P)"
    with i have "getCipher_promise P k = Some (Settled r)" "getCipher_promise P k = Some (Settled r')"
      by (auto simp: proc_ok_def)
    then show "r = r'" by simp
  qed
  have 5: "\<forall>r. (1, r) \<in> set (delivered P) \<longrightarrow>
            (\<exists>kr. fetchKey_promise P = Some (Settled kr) \<and> r = cipher_of env kr)"
    using i by (auto simp: proc_ok_def)
  have 6: "\<forall>more P' kr. schedule env this more P = Some P' \<and>
            fetchKey_promise P = Some (Settled kr) \<longrightarrow>
            fetchKey_promise P' = Some (Settled kr) \<and> derivations P' = derivations P \<and>
            filter is_Attest (history P') = filter is_Attest (history P) \<and>
            (\<forall>r. (1, r) \<in> set (delivered P') \<longrightarrow> r = cipher_of env kr)"
  proof (intro allI impI)
    fix more P' kr
    assume h: "schedule env this more P = Some P' \<and> fetchKey_promise P = Some (Settled kr)"
    then have s: "settles P P'" by (auto intro: schedule_settles)
    from h have i': "proc_ok env P'" using schedule_ok i by blast
    from s h have a: "fetchKey_promise P' = Some (Settled kr)" "derivations P' = derivations P"
      "filter is_Attest (history P') = filter is_Attest (history P)"
      by (auto simp: settles_def)
    have "\<forall>r. (1, r) \<in> set (delivered P') \<longrightarrow> r = cipher_of env kr"
    proof (intro allI impI)
      fix r assume "(1, r) \<in> set (delivered P')"
      with i' have "getCipher_promise P' 1 = Some (Settled r)" by (auto simp: proc_ok_def)
      with i' obtain kr' where "fetchKey_promise P' = Some (Settled kr')" "r = cipher_of env kr'"
        by (auto simp: proc_ok_def)
      with a(1) show "r = cipher_of env kr" by simp
    qed
    with a show "fetchKey_promise P' = Some (Settled kr) \<and> derivations P' = derivations P \<and>
            filter is_Attest (history P') = filter is_Attest (history P) \<and>
            (\<forall>r. (1, r) \<in> set (delivered P') \<longrightarrow> r = cipher_of env kr)"
      by blast
  qed
  from 1 2 3 4 5 6 show ?thesis by blast
qed

text \<open>
  Witness for C5: two concurrent callers and a later one, against the simulated
  collaborators; one derivation, one attestation, the same cipher three times.
\<close>

theorem derivation_at_most_once_witness:
  "schedule (sim advancing (included (Some 1) [''0x07'']) lockbox_sim)
     \<lparr>localWallet_address = ''0x10ca1''\<rparr>
     [Call 1, Call 1, Derive, Resume, Deliver 1, Nonce, Deliver 1, Call 1, Deliver 1] started
   = Some process1 \<and>
   derivations process1 = 1 \<and>
   length (filter is_Attest (history process1)) \<le> derivations process1 \<and>
   delivered process1 = [(1, Inr (concat (replicate 16 [42, 43]))),
                         (1, Inr (concat (replicate 16 [42, 43]))),
                         (1, Inr (concat (replicate 16 [42, 43])))]"
  using derivation_at_most_once[OF sim_schedule_run] sim_schedule_run
  by (simp add: process1_def)

subsection \<open>Calls run to completion are schedules\<close>

text \<open>
  The two readings of the memoization cache agree: a call of \<open>getCipher\<close> run to
  completion is a schedule of the process, from any state in which all promises are
  settled into such a state again, and with the same outcome.
\<close>

lemma schedule_append:
  "schedule env this (as @ bs) P =
     (case schedule env this as P of None \<Rightarrow> None | Some P' \<Rightarrow> schedule env this bs P')"
  by (induction as arbitrary: P) (auto split: option.splits)

lemma agrees_getCipher:
  assumes a: "agrees P (m, tr)"
      and g: "getCipher env this k (m, tr) = Some (r, (m', tr'))"
  shows "\<exists>acts P'. schedule env this acts P = Some P' \<and> agrees P' (m', tr') \<and>
           getCipher_promise P' k = Some (Settled r)"
proof (cases "getCipher_memo m k")
  case (Some r0)
  with g have "r = r0" "m' = m" "tr' = tr" by (simp_all add: getCipher_hit)
  with a Some have "schedule env this [] P = Some P \<and> agrees P (m', tr') \<and>
           getCipher_promise P k = Some (Settled r)"
    by (simp add: agrees_def)
  then show ?thesis by blast
next
  case None
  with a have pk: "getCipher_promise P k = None" by (simp add: agrees_def)
  from None g obtain m1 where b: "getCipher_body env this k (m, tr) = Some (r, (m1, tr'))"
    and m': "m' = m1\<lparr>getCipher_memo := (getCipher_memo m1)(k \<mapsto> r)\<rparr>"
    by (auto simp: getCipher_def memoizeAsync_def split: option.splits prod.splits)
  show ?thesis
  proof (cases "k = 1")
    case False
    with b have r: "r = (if k = 0 then AEAD env (replicate (KeySize env) 42) else Inl (UnknownKey k))"
      and m1: "m1 = m" and tr': "tr' = tr"
      by (auto simp: getCipher_body_def lift_def throw_def split: if_splits)
    let ?P' = "call_getCipher env k P"
    have "schedule env this [Call k] P = Some ?P'" by simp
    moreover have "agrees ?P' (m', tr') \<and> getCipher_promise ?P' k = Some (Settled r)"
      using a pk False r m1 tr' m' by (auto simp: agrees_def call_getCipher_def)
    ultimately show ?thesis by blast
  next
    case True
    from b True obtain kr where
      f: "fetchKeySapphire env this (m, tr) = Some (kr, (m1, tr'))"
      and r: "r = cipher_of env kr"
      by (auto simp: getCipher_body_def await_def lift_def cipher_of_def
               split: option.splits sum.splits prod.splits)
    show ?thesis
    proof (cases "fetchKey_memo m")
      case (Some kr0)
      with f have e: "kr = kr0" "m1 = m" "tr' = tr"
        by (simp_all add: fetchKeySapphire_def memoizeAsync_hit)
      let ?P1 = "call_getCipher env 1 P"
      let ?P2 = "?P1\<lparr>getCipher_promise := (getCipher_promise ?P1)(1 \<mapsto> Settled (cipher_of env kr))\<rparr>"
      from a Some have fp: "fetchKey_promise P = Some (Settled kr0)" by (simp add: agrees_def)
      have "schedule env this [Call 1, Resume] P = Some ?P2"
        using pk True fp e
        by (simp add: call_getCipher_def call_fetchKeySapphire_def cipher_of_def)
      moreover have "agrees ?P2 (m', tr') \<and> getCipher_promise ?P2 k = Some (Settled r)"
        using a pk True fp e m' r Some
        by (auto simp: agrees_def call_getCipher_def call_fetchKeySapphire_def)
      ultimately show ?thesis by blast
    next
      case fn: None
      with f obtain body: "fetchKeySapphire_body env this tr = Some (kr, tr')"
        and m1: "m1 = m\<lparr>fetchKey_memo := Some kr\<rparr>"
        by (auto simp: fetchKeySapphire_def memoizeAsync_def on_trace_def
                 split: option.splits prod.splits)
      from a fn have fp: "fetchKey_promise P = None" by (simp add: agrees_def)
      from a have h: "history P = tr" by (simp add: agrees_def)
      let ?P1 = "call_getCipher env 1 P"
      let ?P2 = "?P1\<lparr>history := tr', fetchKey_promise := Some (Settled kr)\<rparr>"
      let ?P3 = "?P2\<lparr>getCipher_promise := (getCipher_promise ?P2)(1 \<mapsto> Settled (cipher_of env kr))\<rparr>"
      have "schedule env this [Call 1, Derive, Resume] P = Some ?P3"
        using pk True fp h body
        by (simp add: call_getCipher_def call_fetchKeySapphire_def cipher_of_def)
      moreover have "agrees ?P3 (m', tr') \<and> getCipher_promise ?P3 k = Some (Settled r)"
        using a pk True fp m1 m' r fn
        by (auto simp: agrees_def call_getCipher_def call_fetchKeySapphire_def)
      ultimately show ?thesis by blast
    qed
  qed
qed

lemma agrees_deliver:
  assumes "agrees P s" "getCipher_promise P k = Some (Settled r)"
  shows "\<exists>P'. perform env this (Deliver k) P = Some P' \<and> agrees P' s \<and>
           getCipher_promise P' = getCipher_promise P"
  using assms by (simp add: agrees_def)

lemma agrees_call:
  assumes a: "agrees P (m, tr)"
      and g: "getCipher env this k (m, tr) = Some (r, (m', tr'))"
  shows "\<exists>acts P'. schedule env this acts P = Some P' \<and> agrees P' (m', tr') \<and>
           getCipher_promise P' k = Some (Settled r)"
proof -
  from agrees_getCipher[OF a g] obtain acts P1 where
    1: "schedule env this acts P = Some P1" "agrees P1 (m', tr')"
       "getCipher_promise P1 k = Some (Settled r)"
    by blast
  from agrees_deliver[OF 1(2,3)] obtain P2 where
    2: "perform env this (Deliver k) P1 = Some P2" "agrees P2 (m', tr')"
       "getCipher_promise P2 = getCipher_promise P1"
    by blast
  have "schedule env this (acts @ [Deliver k]) P = Some P2"
    using 1(1) 2(1) by (simp add: schedule_append)
  with 2 1(3) show ?thesis by metis
qed

text \<open>Hence every state that completed calls reach is a state of the process.\<close>

lemma runs_is_schedule:
  "runs env this s0 s \<Longrightarrow> s0 = (fresh, []) \<Longrightarrow>
     \<exists>acts P. schedule env this acts started = Some P \<and> agrees P s"
proof (induction rule: runs.induct)
  case (idle s)
  then have "schedule env this [] started = Some started \<and> agrees started s"
    by (simp add: agrees_def started_def fresh_def)
  then show ?case by blast
next
  case (encrypts s s' p r s'')
  then obtain acts P where P: "schedule env this acts started = Some P" "agrees P s'"
    by blast
  obtain m tr where s': "s' = (m, tr)" by (cases s')
  show ?case
  proof (cases "getCipher env this 1 (m, tr)")
    case None
    with encrypts.hyps(2) s' show ?thesis by (simp add: encrypt_unfold)
  next
    case (Some q)
    obtain rc m1 tr1 where q: "q = (rc, (m1, tr1))" by (cases q) auto
    from agrees_call[OF P(2)[unfolded s'] Some[unfolded q]] obtain acts1 P1 where
      1: "schedule env this acts1 P = Some P1" "agrees P1 (m1, tr1)"
         "getCipher_promise P1 1 = Some (Settled rc)"
      by blast
    have run1: "schedule env this (acts @ acts1) started = Some P1"
      using P(1) 1(1) by (simp add: schedule_append)
    show ?thesis
    proof (cases rc)
      case (Inl e)
      with encrypts.hyps(2) s' Some q have "s'' = (m1, tr1)" by (simp add: encrypt_unfold)
      with run1 1(2) show ?thesis by blast
    next
      case (Inr c)
      with encrypts.hyps(2) s' Some q have s'': "s'' = (m1, tr1 @ [RandomBytes (NonceSize env)])"
        by (simp add: encrypt_unfold)
      let ?P2 = "P1\<lparr>history := history P1 @ [RandomBytes (NonceSize env)]\<rparr>"
      have n: "schedule env this [Nonce] P1 = Some ?P2" using 1(3) Inr by simp
      have "schedule env this ((acts @ acts1) @ [Nonce]) started = Some ?P2"
        by (subst schedule_append) (simp only: run1 option.case n)
      moreover have "agrees ?P2 s''" using 1(2) s'' by (simp add: agrees_def)
      ultimately show ?thesis by blast
    qed
  qed
next
  case (decrypts s s' b r s'')
  then obtain acts P where P: "schedule env this acts started = Some P" "agrees P s'"
    by blast
  obtain m tr where s': "s' = (m, tr)" by (cases s')
  show ?case
  proof (cases "getCipher env this (keyId b) (m, tr)")
    case None
    with decrypts.hyps(2) s' show ?thesis by (simp add: decrypt_unfold)
  next
    case (Some q)
    obtain rc m1 tr1 where q: "q = (rc, (m1, tr1))" by (cases q) auto
    from agrees_call[OF P(2)[unfolded s'] Some[unfolded q]] obtain acts1 P1 where
      1: "schedule env this acts1 P = Some P1" "agrees P1 (m1, tr1)"
      by blast
    have run1: "schedule env this (acts @ acts1) started = Some P1"
      using P(1) 1(1) by (simp add: schedule_append)
    from decrypts.hyps(2) s' Some q have "s'' = (m1, tr1)"
      by (cases rc) (simp_all add: decrypt_unfold)
    with run1 1(2) show ?thesis by blast
  qed
qed

text \<open>So calls made one after the other submit at most one attestation.\<close>

lemma runs_attest_once:
  assumes "runs env this (fresh, []) s"
  shows "length (filter is_Attest (snd s)) \<le> 1"
proof -
  from runs_is_schedule[OF assms refl] obtain acts P where
    P: "schedule env this acts started = Some P" "agrees P s"
    by blast
  from schedule_ok[OF P(1) proc_ok_started] have "length (filter is_Attest (history P)) \<le> 1"
    by (simp add: proc_ok_def)
  with P(2) show ?thesis by (simp add: agrees_def)
qed

end
